theory Spec2Isabelle
  imports Complex_Main "HOL-Library.Multiset" "HOL-Library.Product_Lexorder"
begin

section \<open>Python values used by the two pipelines\<close>

text \<open>
  Both programs (\<^verbatim>\<open>Round1A/process_pdfs.py\<close>, the outline extractor, and
  \<^verbatim>\<open>Round1B/process_pdfs.py\<close>, the persona-driven ranker) are embedded as HOL
  functions. Python floats are modelled as exact rationals: the decimal constants of the
  source (\<^verbatim>\<open>0.7\<close>, \<^verbatim>\<open>1.3\<close>, ...) stand for the fractions they denote, and every
  property below is about comparisons and sums of these. Exceptions are values of the
  type \<open>py_error\<close>; a function that can raise returns \<open>py_error + 'a\<close>.
  \<open>ExtractionError\<close> stands for any exception of the layout extraction (an unreadable or
  missing file), \<open>OSError\<close> for any exception of writing a result file.

  Texts are character lists. The character classes below are those of Python's
  \<^verbatim>\<open>str\<close> methods and of the \<^verbatim>\<open>re\<close> module on ASCII text, which is where they
  are exact; a character outside ASCII is treated as neither a space, a digit nor a letter.
\<close>

datatype py_error = ZeroDivisionError | ExtractionError | OSError

subsection \<open>Character classes\<close>

definition ascii_uppercase :: string where
  "ascii_uppercase = ''ABCDEFGHIJKLMNOPQRSTUVWXYZ''"

definition ascii_lowercase :: string where
  "ascii_lowercase = ''abcdefghijklmnopqrstuvwxyz''"

definition digits :: string where
  "digits = ''0123456789''"

definition whitespace :: string where
  "whitespace = [CHR '' '', CHR 0x09, CHR 0x0A, CHR 0x0B, CHR 0x0C, CHR 0x0D,
                 CHR 0x1C, CHR 0x1D, CHR 0x1E, CHR 0x1F]"

definition c_isspace :: "char \<Rightarrow> bool" where
  "c_isspace c = (c \<in> set whitespace)"

definition c_isdigit :: "char \<Rightarrow> bool" where
  "c_isdigit c = (c \<in> set digits)"

definition c_isupper :: "char \<Rightarrow> bool" where
  "c_isupper c = (c \<in> set ascii_uppercase)"

definition c_islower :: "char \<Rightarrow> bool" where
  "c_islower c = (c \<in> set ascii_lowercase)"

definition c_isalpha :: "char \<Rightarrow> bool" where
  "c_isalpha c = (c_isupper c \<or> c_islower c)"

text \<open>The class \<^verbatim>\<open>\w\<close> of the \<^verbatim>\<open>re\<close> module: letters, digits and the underscore.\<close>

definition c_isword :: "char \<Rightarrow> bool" where
  "c_isword c = (c_isalpha c \<or> c_isdigit c \<or> c = CHR ''_'')"

definition c_lower :: "char \<Rightarrow> char" where
  "c_lower c = (case map_of (zip ascii_uppercase ascii_lowercase) c of
                  Some d \<Rightarrow> d | None \<Rightarrow> c)"

subsection \<open>String methods\<close>

definition lower :: "string \<Rightarrow> string" where
  "lower s = map c_lower s"

definition strip :: "string \<Rightarrow> string" where
  "strip s = rev (dropWhile c_isspace (rev (dropWhile c_isspace s)))"

text \<open>\<^verbatim>\<open>s.split()\<close>: the maximal runs of non-space characters; \<open>w\<close> is the word being read.\<close>

fun split_from :: "string \<Rightarrow> string \<Rightarrow> string list" where
  "split_from w [] = (if w = [] then [] else [w])"
| "split_from w (c # cs) =
     (if c_isspace c then (if w = [] then split_from [] cs else w # split_from [] cs)
      else split_from (w @ [c]) cs)"

definition split :: "string \<Rightarrow> string list" where
  "split s = split_from [] s"

fun join :: "string \<Rightarrow> string list \<Rightarrow> string" where
  "join sep [] = []"
| "join sep [w] = w"
| "join sep (w # ws) = w @ sep @ join sep ws"

definition startswith :: "string \<Rightarrow> string \<Rightarrow> bool" where
  "startswith s p = (take (length p) s = p)"

definition endswith :: "string \<Rightarrow> string \<Rightarrow> bool" where
  "endswith s p = (length p \<le> length s \<and> drop (length s - length p) s = p)"

text \<open>
  \<^verbatim>\<open>s.isupper()\<close>: there is a cased character and no cased character is lower case.
\<close>

definition isupper :: "string \<Rightarrow> bool" where
  "isupper s = (list_ex c_isupper s \<and> \<not> list_ex c_islower s)"

text \<open>
  \<^verbatim>\<open>s.istitle()\<close>: upper case only after an uncased character, lower case only after a
  cased one, and at least one cased character. The two flags are CPython's
  \<^verbatim>\<open>previous_is_cased\<close> and \<^verbatim>\<open>cased\<close>.
\<close>

fun istitle_from :: "bool \<Rightarrow> bool \<Rightarrow> string \<Rightarrow> bool" where
  "istitle_from prev cased [] = cased"
| "istitle_from prev cased (c # cs) =
     (if c_isupper c then (if prev then False else istitle_from True True cs)
      else if c_islower c then (if \<not> prev then False else istitle_from True True cs)
      else istitle_from False cased cs)"

definition istitle :: "string \<Rightarrow> bool" where
  "istitle s = istitle_from False False s"

subsection \<open>The regular expressions of the source, matched at the start of the text\<close>

text \<open>
  Each pattern of the source is a sequence of greedy pieces none of which can give back a
  character to the next one, so \<^verbatim>\<open>re.match\<close> is a left-to-right scan: \<open>eat1 p\<close> is
  \<^verbatim>\<open>p+\<close> (one or more), \<open>eat_char p\<close> one character of the class and \<open>opt_dot\<close>
  is \<^verbatim>\<open>\.?\<close>. Each returns the rest of the text, or \<open>None\<close> when the piece does not
  match.
\<close>

definition eat1 :: "(char \<Rightarrow> bool) \<Rightarrow> string \<Rightarrow> string option" where
  "eat1 p s = (case s of [] \<Rightarrow> None
               | c # cs \<Rightarrow> if p c then Some (dropWhile p cs) else None)"

definition eat_char :: "(char \<Rightarrow> bool) \<Rightarrow> string \<Rightarrow> string option" where
  "eat_char p s = (case s of [] \<Rightarrow> None | c # cs \<Rightarrow> if p c then Some cs else None)"

definition opt_dot :: "string \<Rightarrow> string" where
  "opt_dot s = (case s of [] \<Rightarrow> [] | c # cs \<Rightarrow> if c = CHR ''.'' then cs else c # cs)"

text \<open>A literal alternative under \<^verbatim>\<open>re.I\<close>: the first keyword that the lowered text starts with.\<close>

fun eat_keyword_i :: "string list \<Rightarrow> string \<Rightarrow> string option" where
  "eat_keyword_i [] s = None"
| "eat_keyword_i (k # ks) s =
     (if startswith (lower s) k then Some (drop (length k) s) else eat_keyword_i ks s)"

text \<open>\<^verbatim>\<open>^\d+\.\d+\.?\s+\<close>\<close>

definition re_multilevel_number :: "string \<Rightarrow> bool" where
  "re_multilevel_number s =
     (case eat1 c_isdigit s of None \<Rightarrow> False
      | Some r1 \<Rightarrow> (case eat_char (\<lambda>c. c = CHR ''.'') r1 of None \<Rightarrow> False
        | Some r2 \<Rightarrow> (case eat1 c_isdigit r2 of None \<Rightarrow> False
          | Some r3 \<Rightarrow> eat1 c_isspace (opt_dot r3) \<noteq> None)))"

text \<open>\<^verbatim>\<open>^\d+\.?\s+\<close>\<close>

definition re_number :: "string \<Rightarrow> bool" where
  "re_number s =
     (case eat1 c_isdigit s of None \<Rightarrow> False
      | Some r1 \<Rightarrow> eat1 c_isspace (opt_dot r1) \<noteq> None)"

text \<open>\<^verbatim>\<open>^[A-Z]\.?\s+\<close>\<close>

definition re_letter :: "string \<Rightarrow> bool" where
  "re_letter s =
     (case eat_char c_isupper s of None \<Rightarrow> False
      | Some r1 \<Rightarrow> eat1 c_isspace (opt_dot r1) \<noteq> None)"

text \<open>\<^verbatim>\<open>^(k1|k2|...)\s+\d+\<close> with \<^verbatim>\<open>re.I\<close>\<close>

definition re_keyword_number :: "string list \<Rightarrow> string \<Rightarrow> bool" where
  "re_keyword_number ks s =
     (case eat_keyword_i ks s of None \<Rightarrow> False
      | Some r1 \<Rightarrow> (case eat1 c_isspace r1 of None \<Rightarrow> False
        | Some r2 \<Rightarrow> eat1 c_isdigit r2 \<noteq> None))"

text \<open>\<^verbatim>\<open>^(k1|k2|...)\<close> with \<^verbatim>\<open>re.I\<close>\<close>

definition re_keyword :: "string list \<Rightarrow> string \<Rightarrow> bool" where
  "re_keyword ks s = (eat_keyword_i ks s \<noteq> None)"

text \<open>\<^verbatim>\<open>^\d+\.\<close>\<close>

definition re_number_dot :: "string \<Rightarrow> bool" where
  "re_number_dot s =
     (case eat1 c_isdigit s of None \<Rightarrow> False
      | Some r1 \<Rightarrow> eat_char (\<lambda>c. c = CHR ''.'') r1 \<noteq> None)"

text \<open>\<^verbatim>\<open>^\d+\.\d+\<close>\<close>

definition re_number_dot_number :: "string \<Rightarrow> bool" where
  "re_number_dot_number s =
     (case eat1 c_isdigit s of None \<Rightarrow> False
      | Some r1 \<Rightarrow> (case eat_char (\<lambda>c. c = CHR ''.'') r1 of None \<Rightarrow> False
        | Some r2 \<Rightarrow> eat1 c_isdigit r2 \<noteq> None))"

section \<open>Round 1A: the outline extractor\<close>

subsection \<open>Data\<close>

record text_element =
  line_text :: string
  page :: int
  avg_size :: rat
  max_size :: rat
  is_bold :: bool
  is_italic :: bool
  bbox :: "rat list"

record size_thresholds =
  h1 :: rat
  h2 :: rat
  h3 :: rat

text \<open>
  The statistics dictionary. For an empty document the source leaves the keys
  \<^verbatim>\<open>all_sizes\<close> and \<^verbatim>\<open>size_distribution\<close> out; nothing reads them, and the model
  has them empty there.
\<close>

record doc_stats =
  dominant_size :: rat
  all_sizes :: "rat list"
  size_distribution :: "(rat \<times> nat) list"
  thresholds :: size_thresholds

datatype heading_level = H1 | H2 | H3

record outline_item =
  level :: heading_level
  item_text :: string
  item_page :: int
  confidence :: rat


subsection \<open>analyze\_document\_statistics\<close>

text \<open>The keys of a \<^verbatim>\<open>Counter\<close>, in the order of their first insertion.\<close>

definition counter_keys :: "'a list \<Rightarrow> 'a list" where
  "counter_keys xs = rev (remdups (rev xs))"

text \<open>
  \<^verbatim>\<open>most_common(1)[0][0]\<close>: the first key, in insertion order, whose count is the largest
  (\<^verbatim>\<open>heapq.nlargest(1, ...)\<close> is \<^verbatim>\<open>max\<close>, which keeps the first maximum).
\<close>

fun first_max :: "('a \<Rightarrow> nat) \<Rightarrow> 'a \<Rightarrow> 'a list \<Rightarrow> 'a" where
  "first_max f b [] = b"
| "first_max f b (x # xs) = first_max f (if f b < f x then x else b) xs"

definition most_common :: "'a \<Rightarrow> 'a list \<Rightarrow> 'a" where
  "most_common x xs = first_max (count_list (x # xs)) x (counter_keys (x # xs))"

definition analyze_document_statistics :: "text_element list \<Rightarrow> doc_stats" where
  "analyze_document_statistics text_elements =
     (case map max_size text_elements of
        [] \<Rightarrow> \<lparr>dominant_size = 12, all_sizes = [], size_distribution = [],
               thresholds = \<lparr>h1 = 18, h2 = 15, h3 = 13\<rparr>\<rparr>
      | s # ss \<Rightarrow>
          let font_sizes = s # ss;
              dominant = most_common s ss;
              unique_sizes = rev (sort (remdups font_sizes));
              ths = (if 3 \<le> length unique_sizes
                     then \<lparr>h1 = unique_sizes ! 0,
                           h2 = (if 1 < length unique_sizes then unique_sizes ! 1
                                 else dominant * (13 / 10)),
                           h3 = (if 2 < length unique_sizes then unique_sizes ! 2
                                 else dominant * (11 / 10))\<rparr>
                     else \<lparr>h1 = max (dominant * (3 / 2)) (Max (set font_sizes) * (9 / 10)),
                           h2 = dominant * (13 / 10),
                           h3 = dominant * (11 / 10)\<rparr>)
          in \<lparr>dominant_size = dominant, all_sizes = font_sizes,
               size_distribution = map (\<lambda>k. (k, count_list font_sizes k)) (counter_keys font_sizes),
               thresholds = ths\<rparr>)"

subsection \<open>extract\_document\_title and its four scores\<close>

definition calculate_size_score :: "text_element \<Rightarrow> doc_stats \<Rightarrow> py_error + rat" where
  "calculate_size_score elem stats =
     (if dominant_size stats = 0 then Inl ZeroDivisionError
      else let size_ratio = max_size elem / dominant_size stats in
        Inr (if size_ratio \<ge> 5 / 2 then 1
             else if size_ratio \<ge> 2 then 9 / 10
             else if size_ratio \<ge> 9 / 5 then 4 / 5
             else if size_ratio \<ge> 3 / 2 then 7 / 10
             else if size_ratio \<ge> 13 / 10 then 1 / 2
             else 1 / 5))"

definition calculate_position_score :: "nat \<Rightarrow> rat" where
  "calculate_position_score position =
     (if position = 0 then 1
      else if position \<le> 2 then 4 / 5
      else if position \<le> 5 then 3 / 5
      else 3 / 10)"

definition calculate_content_score :: "string \<Rightarrow> rat" where
  "calculate_content_score txt =
     (let word_count = length (split txt);
          score = 0;
          score = score + (if 3 \<le> word_count \<and> word_count \<le> 20 then 1 / 2
                           else if word_count \<le> 30 then 3 / 10 else 0);
          score = score + (if istitle txt then 1 / 5
                           else if isupper txt \<and> word_count \<le> 12 then 3 / 10 else 0);
          score = score - (if re_number_dot txt \<or> startswith (lower txt) ''page ''
                              \<or> startswith (lower txt) ''figure '' then 1 / 2 else 0)
      in max 0 score)"

definition calculate_style_score :: "text_element \<Rightarrow> rat" where
  "calculate_style_score elem =
     (let score = 0;
          score = score + (if is_bold elem then 3 / 5 else 0);
          score = score + (if is_italic elem then 1 / 5 else 0)
      in score)"

text \<open>
  \<^verbatim>\<open>re.sub(r'\s+', ' ', title)\<close>: every maximal run of spaces becomes one blank;
  \<open>in_run\<close> says that the previous character was a space.
\<close>

fun collapse_from :: "bool \<Rightarrow> string \<Rightarrow> string" where
  "collapse_from in_run [] = []"
| "collapse_from in_run (c # cs) =
     (if c_isspace c then (if in_run then collapse_from True cs
                           else CHR '' '' # collapse_from True cs)
      else c # collapse_from False cs)"

definition collapse_spaces :: "string \<Rightarrow> string" where
  "collapse_spaces s = collapse_from False s"

definition clean_title :: "string \<Rightarrow> string" where
  "clean_title t =
     (let t1 = strip (collapse_spaces t);
          t2 = (if length t1 > 100
                then (let words = split (take 100 t1)
                      in if length words > 1 then join '' '' (butlast words) else t1)
                else t1)
      in if length t2 \<ge> 3 then t2 else ''Document'')"

text \<open>The loop over \<^verbatim>\<open>enumerate(first_page_elements)\<close>; it stops at the first exception.\<close>

fun title_candidates :: "doc_stats \<Rightarrow> (nat \<times> text_element) list \<Rightarrow> py_error + (rat \<times> string) list" where
  "title_candidates stats [] = Inr []"
| "title_candidates stats ((i, elem) # rest) =
     (let txt = strip (line_text elem) in
      if txt = [] \<or> length txt < 3 then title_candidates stats rest
      else case calculate_size_score elem stats of
             Inl err \<Rightarrow> Inl err
           | Inr size_score \<Rightarrow>
               let position_score = calculate_position_score i;
                   content_score = calculate_content_score txt;
                   style_score = calculate_style_score elem;
                   total_score = size_score * (2 / 5) + position_score * (1 / 5)
                               + content_score * (1 / 5) + style_score * (1 / 5)
               in case title_candidates stats rest of
                    Inl err \<Rightarrow> Inl err
                  | Inr cands \<Rightarrow> Inr ((total_score, txt) # cands))"

text \<open>
  Python's \<^verbatim>\<open>sort\<close> is stable, also with \<^verbatim>\<open>reverse=True\<close>: it is the stable
  sort on the negated key, which is what \<open>sort_key\<close> (insertion sort) computes.
\<close>

definition extract_document_title :: "text_element list \<Rightarrow> doc_stats \<Rightarrow> py_error + string" where
  "extract_document_title text_elements stats =
     (if text_elements = [] then Inr ''Document''
      else let first_page_elements = take 15 (filter (\<lambda>elem. page elem = 0) text_elements) in
        case title_candidates stats (enumerate 0 first_page_elements) of
          Inl err \<Rightarrow> Inl err
        | Inr cands \<Rightarrow>
            (case sort_key (\<lambda>x. - fst x) cands of
               [] \<Rightarrow> Inr ''Document''
             | best # _ \<Rightarrow> Inr (clean_title (snd best))))"

subsection \<open>calculate\_heading\_score\<close>

text \<open>The amount each group of the source adds to \<^verbatim>\<open>score\<close>, in the source's order.\<close>

definition size_factor :: "rat \<Rightarrow> rat" where
  "size_factor size_ratio =
     (if size_ratio \<ge> 2 then 1 / 2
      else if size_ratio \<ge> 9 / 5 then 9 / 20
      else if size_ratio \<ge> 3 / 2 then 2 / 5
      else if size_ratio \<ge> 13 / 10 then 3 / 10
      else if size_ratio \<ge> 6 / 5 then 1 / 5
      else if size_ratio \<ge> 11 / 10 then 1 / 10
      else 0)"

definition style_factor :: "text_element \<Rightarrow> rat" where
  "style_factor elem = (if is_bold elem then 1 / 4 else 0)"

definition pattern_factor :: "string \<Rightarrow> rat" where
  "pattern_factor txt =
     (if re_multilevel_number txt then 3 / 10
      else if re_number txt then 1 / 4
      else if re_letter txt then 1 / 5
      else if re_keyword_number [''chapter'', ''section'', ''part''] txt then 7 / 20
      else if re_keyword [''appendix'', ''abstract'', ''introduction'', ''conclusion''] txt
        then 3 / 10
      else 0)"

definition case_factor :: "string \<Rightarrow> nat \<Rightarrow> rat" where
  "case_factor txt word_count =
     (if isupper txt \<and> 2 \<le> word_count \<and> word_count \<le> 8 then 1 / 5
      else if istitle txt \<and> 2 \<le> word_count \<and> word_count \<le> 12 then 3 / 20
      else 0)"

definition length_factor :: "nat \<Rightarrow> rat" where
  "length_factor word_count =
     (if 1 \<le> word_count \<and> word_count \<le> 15 then 1 / 10
      else if word_count > 25 then - (3 / 10)
      else 0)"

definition punctuation_factor :: "string \<Rightarrow> nat \<Rightarrow> rat" where
  "punctuation_factor txt word_count =
     (if endswith txt '':'' then 3 / 20
      else if endswith txt ''.'' \<and> word_count > 10 then - (1 / 5)
      else 0)"

definition calculate_heading_score :: "text_element \<Rightarrow> doc_stats \<Rightarrow> py_error + rat" where
  "calculate_heading_score elem stats =
     (let txt = strip (line_text elem) in
      if dominant_size stats = 0 then Inl ZeroDivisionError
      else let size_ratio = max_size elem / dominant_size stats;
               score = 0 + size_factor size_ratio + style_factor elem + pattern_factor txt;
               word_count = length (split txt);
               score = score + case_factor txt word_count + length_factor word_count
                     + punctuation_factor txt word_count
           in Inr (min score 1))"

subsection \<open>determine\_heading\_level\<close>

definition determine_heading_level :: "text_element \<Rightarrow> size_thresholds \<Rightarrow> string \<Rightarrow> heading_level" where
  "determine_heading_level elem ths txt =
     (let size = max_size elem;
          base_level = (if size \<ge> h1 ths then H1 else if size \<ge> h2 ths then H2 else H3)
      in if re_keyword_number [''chapter'', ''part''] txt then H1
         else if re_keyword_number [''section''] txt then H2
         else if re_number_dot_number txt then H3
         else if re_number txt \<and> base_level \<noteq> H3 then H2
         else if lower txt \<in> set [''abstract'', ''introduction'', ''conclusion'', ''references'']
           then H1
         else base_level)"

subsection \<open>post\_process\_outline\<close>

definition item_key :: "outline_item \<Rightarrow> string \<times> int" where
  "item_key item = (strip (lower (item_text item)), item_page item)"

text \<open>The first loop: \<open>seen\<close> is the set of keys met so far.\<close>

fun remove_duplicates :: "(string \<times> int) set \<Rightarrow> outline_item list \<Rightarrow> outline_item list" where
  "remove_duplicates seen [] = []"
| "remove_duplicates seen (item # rest) =
     (let key = item_key item in
      if key \<notin> seen then item # remove_duplicates (insert key seen) rest
      else remove_duplicates seen rest)"

definition max_per_page :: nat where
  "max_per_page = 5"

text \<open>The second loop: \<open>page_counts\<close> is the \<^verbatim>\<open>defaultdict(int)\<close>, zero where unset.\<close>

fun apply_limits :: "(int \<Rightarrow> nat) \<Rightarrow> outline_item list \<Rightarrow> outline_item list" where
  "apply_limits page_counts [] = []"
| "apply_limits page_counts (item # rest) =
     (let pg = item_page item in
      if page_counts pg < max_per_page \<and> confidence item \<ge> 7 / 10
      then item # apply_limits (page_counts(pg := page_counts pg + 1)) rest
      else apply_limits page_counts rest)"

definition post_process_outline :: "outline_item list \<Rightarrow> outline_item list" where
  "post_process_outline outl =
     (if outl = [] then outl
      else let unique_outline = remove_duplicates {} outl;
               unique_outline = sort_key (\<lambda>x. (item_page x, - confidence x)) unique_outline;
               filtered_outline = apply_limits (\<lambda>_. 0) unique_outline
           in if length filtered_outline > 20
              then sort_key item_page (take 20 (sort_key (\<lambda>x. - confidence x) filtered_outline))
              else filtered_outline)"

subsection \<open>extract\_document\_outline\<close>

text \<open>
  The loop that collects the heading candidates, before post-processing. It raises when
  \<open>calculate_heading_score\<close> does.
\<close>

fun heading_candidates :: "doc_stats \<Rightarrow> text_element list \<Rightarrow> py_error + outline_item list" where
  "heading_candidates stats [] = Inr []"
| "heading_candidates stats (elem # rest) =
     (let txt = strip (line_text elem) in
      if txt = [] \<or> length txt < 2 then heading_candidates stats rest
      else case calculate_heading_score elem stats of
             Inl err \<Rightarrow> Inl err
           | Inr heading_score \<Rightarrow>
               (case heading_candidates stats rest of
                  Inl err \<Rightarrow> Inl err
                | Inr cands \<Rightarrow>
                    if heading_score \<ge> 7 / 10
                    then Inr (\<lparr>level = determine_heading_level elem (thresholds stats) txt,
                               item_text = txt, item_page = page elem,
                               confidence = heading_score\<rparr> # cands)
                    else Inr cands))"


subsection \<open>extract\_document\_structure and the batch\<close>









section \<open>Round 1B: the persona-driven ranker\<close>

subsection \<open>Data\<close>

text \<open>
  A line of a page as \<^verbatim>\<open>extract_pdf_content\<close> builds it (no maximal size here), the
  analysis of a document, and a section with the two keys that scoring and ranking add.
\<close>

record page_element =
  elem_text :: string
  elem_avg_size :: rat
  elem_is_bold :: bool
  elem_is_italic :: bool
  elem_bbox :: "rat list"
  elem_page :: int

record doc_analysis =
  primary_size :: rat
  heading_threshold :: rat

record doc_section =
  section_title :: string
  content :: string
  document :: string
  section_page :: int
  section_type :: string
  relevance_score :: rat
  rank :: "nat option"

subsection \<open>is\_section\_heading\<close>

text \<open>
  The three patterns are all matched with \<^verbatim>\<open>re.I\<close>, under which the class
  \<^verbatim>\<open>[A-Z]\<close> is every letter. \<^verbatim>\<open>$\<close> is the end of the text, or the place before a
  final newline.
\<close>

text \<open>\<^verbatim>\<open>^\d+\.?\s+[A-Z]\<close> with \<^verbatim>\<open>re.I\<close>\<close>

definition re_numbered_start_i :: "string \<Rightarrow> bool" where
  "re_numbered_start_i s =
     (case eat1 c_isdigit s of None \<Rightarrow> False
      | Some r1 \<Rightarrow> (case eat1 c_isspace (opt_dot r1) of None \<Rightarrow> False
        | Some r2 \<Rightarrow> eat_char c_isalpha r2 \<noteq> None))"

text \<open>\<^verbatim>\<open>^[A-Z][A-Z\s]+$\<close> with \<^verbatim>\<open>re.I\<close>\<close>

definition re_caps_line_i :: "string \<Rightarrow> bool" where
  "re_caps_line_i s =
     (case eat_char c_isalpha s of None \<Rightarrow> False
      | Some r1 \<Rightarrow> r1 \<noteq> [] \<and> list_all (\<lambda>c. c_isalpha c \<or> c_isspace c) r1)"

text \<open>\<^verbatim>\<open>^(k1|k2|...)$\<close> with \<^verbatim>\<open>re.I\<close>\<close>

definition re_keyword_line_i :: "string list \<Rightarrow> string \<Rightarrow> bool" where
  "re_keyword_line_i ks s =
     (case eat_keyword_i ks s of None \<Rightarrow> False
      | Some r1 \<Rightarrow> r1 = [] \<or> r1 = [CHR 0x0A])"

definition is_section_heading :: "page_element \<Rightarrow> doc_analysis \<Rightarrow> bool" where
  "is_section_heading elem analysis =
     (let txt = strip (elem_text elem) in
      if elem_avg_size elem \<ge> heading_threshold analysis then True
      else if elem_is_bold elem \<and> length (split txt) \<le> 15 then True
      else if re_numbered_start_i txt then True
      else if re_caps_line_i txt then True
      else if re_keyword_line_i [''chapter'', ''section'', ''abstract'', ''introduction'',
                                 ''conclusion'', ''methodology''] txt then True
      else False)"

subsection \<open>extract\_expertise\_areas\<close>

text \<open>\<^verbatim>\<open>p in s\<close>: \<open>p\<close> occurs in \<open>s\<close>.\<close>

fun contains :: "string \<Rightarrow> string \<Rightarrow> bool" where
  "contains [] p = (p = [])"
| "contains (c # cs) p = (startswith (c # cs) p \<or> contains cs p)"

text \<open>\<^verbatim>\<open>re.search\<close> of an alternative of lower-case literals with \<^verbatim>\<open>re.I\<close>.\<close>

definition search_i :: "string list \<Rightarrow> string \<Rightarrow> bool" where
  "search_i pats s = list_ex (contains (lower s)) pats"

text \<open>
  \<^verbatim>\<open>re.findall(r'\b[a-zA-Z]{4,}\b', s)\<close>, one character at a time. A match is a run of
  letters that starts after a non-word character (or at the start), has at least four
  letters and ends before a non-word character (or at the end); \<^verbatim>\<open>\b\<close> cannot hold
  inside a run, so a run that is not a match contains none. \<open>cur\<close> is the run being
  read when it started at a word boundary, \<open>prev\<close> says whether the previous character
  is a word character.
\<close>

fun findall_words :: "string option \<Rightarrow> bool \<Rightarrow> string \<Rightarrow> string list" where
  "findall_words cur prev [] =
     (case cur of Some w \<Rightarrow> if length w \<ge> 4 then [w] else [] | None \<Rightarrow> [])"
| "findall_words cur prev (c # cs) =
     (if c_isalpha c then
        (case cur of
           Some w \<Rightarrow> findall_words (Some (w @ [c])) True cs
         | None \<Rightarrow> if prev then findall_words None True cs
                   else findall_words (Some [c]) True cs)
      else
        (case cur of
           Some w \<Rightarrow> if length w \<ge> 4 \<and> \<not> c_isword c
                     then w # findall_words None (c_isword c) cs
                     else findall_words None (c_isword c) cs
         | None \<Rightarrow> findall_words None (c_isword c) cs))"

definition common_words :: "string set" where
  "common_words = {''the'', ''and'', ''for'', ''are'', ''but'', ''not'', ''you'', ''all'',
                   ''can'', ''had''}"

text \<open>
  The three domain bundles, in the order the source appends them. The result is
  \<^verbatim>\<open>list(set(...))\<close>, a list without duplicates in no specified order: the model
  returns the set.
\<close>

definition domain_keywords :: "string \<Rightarrow> string list" where
  "domain_keywords persona =
     (if search_i [''computational biology'', ''drug discovery''] persona
      then [''computational'', ''biology'', ''drug'', ''discovery'', ''methodology'', ''datasets'']
      else [])
     @ (if search_i [''investment'', ''financial'', ''analyst''] persona
        then [''financial'', ''investment'', ''revenue'', ''market'', ''analysis'']
        else [])
     @ (if search_i [''chemistry'', ''organic'', ''student''] persona
        then [''chemistry'', ''organic'', ''reaction'', ''kinetics'', ''mechanisms'']
        else [])"

definition extract_expertise_areas :: "string \<Rightarrow> string set" where
  "extract_expertise_areas persona =
     (let expertise_keywords = domain_keywords persona;
          words = findall_words None False (lower persona);
          expertise_keywords = expertise_keywords @ filter (\<lambda>w. w \<notin> common_words) words
      in set expertise_keywords)"

subsection \<open>rank\_and\_select\<close>

definition max_sections :: nat where
  "max_sections = 10"

definition min_score :: rat where
  "min_score = 3 / 10"

definition max_per_doc :: nat where
  "max_per_doc = 3"

text \<open>
  The selection loop: \<open>selected\<close> and \<open>doc_counts\<close> are its two variables, and the
  first equation's test is the \<^verbatim>\<open>break\<close>.
\<close>

fun select_sections :: "doc_section list \<Rightarrow> (string \<Rightarrow> nat) \<Rightarrow> doc_section list \<Rightarrow> doc_section list" where
  "select_sections selected doc_counts [] = selected"
| "select_sections selected doc_counts (s # rest) =
     (if length selected \<ge> max_sections then selected
      else if relevance_score s < min_score then select_sections selected doc_counts rest
      else let doc_name = document s in
        if doc_counts doc_name \<ge> max_per_doc then select_sections selected doc_counts rest
        else select_sections (selected @ [s])
               (doc_counts(doc_name := doc_counts doc_name + 1)) rest)"

text \<open>
  The sections are values here. The source writes \<^verbatim>\<open>rank\<close> into the dictionaries
  themselves; \<^verbatim>\<open>score_sections\<close> makes a fresh copy of every section, so no
  dictionary occurs twice in the list and each receives one rank.
\<close>

definition rank_and_select :: "doc_section list \<Rightarrow> doc_section list" where
  "rank_and_select scored_sections =
     (if scored_sections = [] then []
      else let ranked_sections = sort_key (\<lambda>x. - relevance_score x) scored_sections;
               selected = select_sections [] (\<lambda>_. 0) ranked_sections
           in map (\<lambda>(i, s). s\<lparr>rank := Some (i + 1)\<rparr>) (enumerate 0 selected))"

section \<open>Properties of the heading score\<close>

lemma size_factor_bounds: "0 \<le> size_factor r \<and> size_factor r \<le> 1 / 2"
  by (simp add: size_factor_def)

lemma style_factor_bounds: "0 \<le> style_factor e \<and> style_factor e \<le> 1 / 4"
  by (simp add: style_factor_def)

lemma pattern_factor_bounds: "0 \<le> pattern_factor t \<and> pattern_factor t \<le> 7 / 20"
  by (simp add: pattern_factor_def)

lemma case_factor_bounds: "0 \<le> case_factor t n \<and> case_factor t n \<le> 1 / 5"
  by (simp add: case_factor_def)

lemma length_factor_bounds: "- (3 / 10) \<le> length_factor n \<and> length_factor n \<le> 1 / 10"
  by (simp add: length_factor_def)

lemma punctuation_factor_bounds:
  "- (1 / 5) \<le> punctuation_factor t n \<and> punctuation_factor t n \<le> 3 / 20"
  by (simp add: punctuation_factor_def)

text \<open>
  C1, as the code has it. The source caps the sum with \<^verbatim>\<open>min(score, 1.0)\<close> and has no
  floor: the two negative terms (more than 25 words, a final period after more than 10
  words) can make the result negative. When the dominant size is not zero the score is
  returned and lies between \<open>-1/2\<close> and \<open>1\<close>; when it is zero the division raises.
\<close>

theorem calculate_heading_score_range:
  "(dominant_size stats = 0 \<longrightarrow> calculate_heading_score elem stats = Inl ZeroDivisionError)
   \<and> (dominant_size stats \<noteq> 0 \<longrightarrow>
        (\<exists>s. calculate_heading_score elem stats = Inr s \<and> - (1 / 2) \<le> s \<and> s \<le> 1))"
  using size_factor_bounds[of "max_size elem / dominant_size stats"]
    style_factor_bounds[of elem] pattern_factor_bounds[of "strip (line_text elem)"]
    case_factor_bounds[of "strip (line_text elem)" "length (split (strip (line_text elem)))"]
    length_factor_bounds[of "length (split (strip (line_text elem)))"]
    punctuation_factor_bounds[of "strip (line_text elem)"
      "length (split (strip (line_text elem)))"]
  by (simp add: calculate_heading_score_def Let_def)

theorem calculate_heading_score_range_witness:
  "dominant_size \<lparr>dominant_size = 12, all_sizes = [12, 24], size_distribution = [(12, 1), (24, 1)],
                   thresholds = \<lparr>h1 = 18, h2 = 78 / 5, h3 = 66 / 5\<rparr>\<rparr> \<noteq> 0
   \<and> (\<exists>s. calculate_heading_score
             \<lparr>line_text = ''1. Introduction'', page = 0, avg_size = 24, max_size = 24,
              is_bold = True, is_italic = False, bbox = [0, 0, 0, 0]\<rparr>
             \<lparr>dominant_size = 12, all_sizes = [12, 24], size_distribution = [(12, 1), (24, 1)],
              thresholds = \<lparr>h1 = 18, h2 = 78 / 5, h3 = 66 / 5\<rparr>\<rparr> = Inr s
          \<and> - (1 / 2) \<le> s \<and> s \<le> 1)"
  using calculate_heading_score_range
    [of "\<lparr>dominant_size = 12, all_sizes = [12, 24], size_distribution = [(12, 1), (24, 1)],
          thresholds = \<lparr>h1 = 18, h2 = 78 / 5, h3 = 66 / 5\<rparr>\<rparr>"
        "\<lparr>line_text = ''1. Introduction'', page = 0, avg_size = 24, max_size = 24,
          is_bold = True, is_italic = False, bbox = [0, 0, 0, 0]\<rparr>"]
  by simp

text \<open>
  C1 as stated fails: a plain body line of 26 words that ends with a period, in the
  dominant size and not bold, scores \<open>-1/2\<close>.
\<close>

theorem calculate_heading_score_negative:
  "calculate_heading_score
     \<lparr>line_text = ''the report lists all of the results that we had found in the first year of the study and it also gives the plan for the next year.'',
      page = 1, avg_size = 10, max_size = 10, is_bold = False, is_italic = False,
      bbox = [0, 0, 0, 0]\<rparr>
     \<lparr>dominant_size = 10, all_sizes = [10], size_distribution = [(10, 1)],
      thresholds = \<lparr>h1 = 15, h2 = 13, h3 = 11\<rparr>\<rparr> = Inr (- (1 / 2))
   \<and> (- (1 / 2) :: rat) < 0"
  by code_simp

section \<open>Heading candidates\<close>

lemma calculate_heading_score_returns:
  "dominant_size stats \<noteq> 0 \<Longrightarrow> \<exists>s. calculate_heading_score e stats = Inr s"
  by (simp add: calculate_heading_score_def Let_def)

text \<open>
  C5, as the code has it. The loop of \<^verbatim>\<open>extract_document_outline\<close> first skips every
  element whose trimmed text has fewer than two characters, and only then applies the
  cutoff. With a dominant size that is not zero the loop returns, and its candidates are
  exactly the elements of the document with at least two characters and a score of at
  least \<open>7/10\<close>, each with its level, trimmed text, page and score.
\<close>

theorem heading_candidates_exact:
  assumes nz: "dominant_size stats \<noteq> 0"
  shows "\<exists>cands. heading_candidates stats elems = Inr cands
    \<and> (\<forall>e s. e \<in> set elems \<and> 2 \<le> length (strip (line_text e))
            \<and> calculate_heading_score e stats = Inr s \<and> 7 / 10 \<le> s
         \<longrightarrow> \<lparr>level = determine_heading_level e (thresholds stats) (strip (line_text e)),
               item_text = strip (line_text e), item_page = page e, confidence = s\<rparr> \<in> set cands)
    \<and> (\<forall>c \<in> set cands. \<exists>e \<in> set elems. \<exists>s. 2 \<le> length (strip (line_text e))
            \<and> calculate_heading_score e stats = Inr s \<and> 7 / 10 \<le> s
            \<and> c = \<lparr>level = determine_heading_level e (thresholds stats) (strip (line_text e)),
               item_text = strip (line_text e), item_page = page e, confidence = s\<rparr>)"
proof (induction elems)
  case Nil
  show ?case by simp
next
  case (Cons e rest)
  then obtain cands where IH: "heading_candidates stats rest = Inr cands"
    and IH1: "\<forall>e s. e \<in> set rest \<and> 2 \<le> length (strip (line_text e))
            \<and> calculate_heading_score e stats = Inr s \<and> 7 / 10 \<le> s
         \<longrightarrow> \<lparr>level = determine_heading_level e (thresholds stats) (strip (line_text e)),
               item_text = strip (line_text e), item_page = page e, confidence = s\<rparr> \<in> set cands"
    and IH2: "\<forall>c \<in> set cands. \<exists>e \<in> set rest. \<exists>s. 2 \<le> length (strip (line_text e))
            \<and> calculate_heading_score e stats = Inr s \<and> 7 / 10 \<le> s
            \<and> c = \<lparr>level = determine_heading_level e (thresholds stats) (strip (line_text e)),
               item_text = strip (line_text e), item_page = page e, confidence = s\<rparr>"
    by blast
  obtain s where s: "calculate_heading_score e stats = Inr s"
    using calculate_heading_score_returns[OF nz] by blast
  show ?case
  proof (cases "2 \<le> length (strip (line_text e)) \<and> 7 / 10 \<le> s")
    case True
    then have "heading_candidates stats (e # rest) =
      Inr (\<lparr>level = determine_heading_level e (thresholds stats) (strip (line_text e)),
               item_text = strip (line_text e), item_page = page e, confidence = s\<rparr> # cands)"
      using IH s by (auto simp: Let_def)
    then show ?thesis using IH1 IH2 s True by auto
  next
    case False
    then have "heading_candidates stats (e # rest) = Inr cands"
      using IH s by (auto simp: Let_def)
    then show ?thesis using IH1 IH2 s False by auto
  qed
qed

theorem heading_candidates_exact_witness:
  "dominant_size \<lparr>dominant_size = 12, all_sizes = [24, 12, 12],
                   size_distribution = [(24, 1), (12, 2)],
                   thresholds = \<lparr>h1 = 108 / 5, h2 = 78 / 5, h3 = 66 / 5\<rparr>\<rparr> \<noteq> 0
   \<and> heading_candidates
        \<lparr>dominant_size = 12, all_sizes = [24, 12, 12], size_distribution = [(24, 1), (12, 2)],
         thresholds = \<lparr>h1 = 108 / 5, h2 = 78 / 5, h3 = 66 / 5\<rparr>\<rparr>
        [\<lparr>line_text = ''1. Introduction'', page = 0, avg_size = 24, max_size = 24,
          is_bold = True, is_italic = False, bbox = [0, 0, 0, 0]\<rparr>,
         \<lparr>line_text = ''plain body text'', page = 0, avg_size = 12, max_size = 12,
          is_bold = False, is_italic = False, bbox = [0, 0, 0, 0]\<rparr>]
      = Inr [\<lparr>level = H2, item_text = ''1. Introduction'', item_page = 0, confidence = 1\<rparr>]"
proof -
  have run: "heading_candidates
        \<lparr>dominant_size = 12, all_sizes = [24, 12, 12], size_distribution = [(24, 1), (12, 2)],
         thresholds = \<lparr>h1 = 108 / 5, h2 = 78 / 5, h3 = 66 / 5\<rparr>\<rparr>
        [\<lparr>line_text = ''1. Introduction'', page = 0, avg_size = 24, max_size = 24,
          is_bold = True, is_italic = False, bbox = [0, 0, 0, 0]\<rparr>,
         \<lparr>line_text = ''plain body text'', page = 0, avg_size = 12, max_size = 12,
          is_bold = False, is_italic = False, bbox = [0, 0, 0, 0]\<rparr>]
      = Inr [\<lparr>level = H2, item_text = ''1. Introduction'', item_page = 0, confidence = 1\<rparr>]"
    by code_simp
  show ?thesis
    using run heading_candidates_exact
      [of "\<lparr>dominant_size = 12, all_sizes = [24, 12, 12],
            size_distribution = [(24, 1), (12, 2)],
            thresholds = \<lparr>h1 = 108 / 5, h2 = 78 / 5, h3 = 66 / 5\<rparr>\<rparr>"
          "[\<lparr>line_text = ''1. Introduction'', page = 0, avg_size = 24, max_size = 24,
            is_bold = True, is_italic = False, bbox = [0, 0, 0, 0]\<rparr>,
           \<lparr>line_text = ''plain body text'', page = 0, avg_size = 12, max_size = 12,
            is_bold = False, is_italic = False, bbox = [0, 0, 0, 0]\<rparr>]"]
    by simp
qed

text \<open>
  C5 as stated fails: the one-letter line \<open>A\<close>, bold and twice the dominant size, scores
  \<open>17/20\<close>, above the cutoff, and is not a candidate.
\<close>

theorem heading_candidates_skip_short:
  "calculate_heading_score
     \<lparr>line_text = ''A'', page = 0, avg_size = 24, max_size = 24, is_bold = True,
      is_italic = False, bbox = [0, 0, 0, 0]\<rparr>
     \<lparr>dominant_size = 12, all_sizes = [24, 12, 12], size_distribution = [(24, 1), (12, 2)],
      thresholds = \<lparr>h1 = 108 / 5, h2 = 78 / 5, h3 = 66 / 5\<rparr>\<rparr> = Inr (17 / 20)
   \<and> (7 / 10 :: rat) \<le> 17 / 20
   \<and> heading_candidates
     \<lparr>dominant_size = 12, all_sizes = [24, 12, 12], size_distribution = [(24, 1), (12, 2)],
      thresholds = \<lparr>h1 = 108 / 5, h2 = 78 / 5, h3 = 66 / 5\<rparr>\<rparr>
     [\<lparr>line_text = ''A'', page = 0, avg_size = 24, max_size = 24, is_bold = True,
      is_italic = False, bbox = [0, 0, 0, 0]\<rparr>] = Inr []"
  by code_simp

section \<open>The heading test of the segmenter\<close>

text \<open>
  C2 at the line \<open>hello world\<close>, below the threshold and not bold: the source matches all
  three patterns with \<^verbatim>\<open>re.I\<close>, so \<^verbatim>\<open>^[A-Z][A-Z\s]+$\<close> accepts lower-case letters and
  the line is a heading.
\<close>

theorem is_section_heading_lowercase_line:
  "is_section_heading
     \<lparr>elem_text = ''hello world'', elem_avg_size = 10, elem_is_bold = False,
      elem_is_italic = False, elem_bbox = [0, 0, 0, 0], elem_page = 0\<rparr>
     \<lparr>primary_size = 12, heading_threshold = 72 / 5\<rparr> = True
   \<and> (10 :: rat) < 72 / 5"
  by code_simp

section \<open>Expertise keywords\<close>

lemma findall_words_length:
  "w \<in> set (findall_words cur prev s) \<Longrightarrow> 4 \<le> length w"
  by (induction s arbitrary: cur prev) (auto split: option.splits if_splits)

lemma common_words_length: "w \<in> common_words \<Longrightarrow> length w = 3"
  by (auto simp: common_words_def)

text \<open>
  C10. Every stop word has three letters and every token that \<^verbatim>\<open>findall\<close> returns has
  at least four, so the filter on the stop words keeps every token: the result is the
  domain bundles together with all the tokens of the lowered persona.
\<close>

theorem extract_expertise_areas_no_stopword:
  "(\<forall>w \<in> common_words. length w = 3)
   \<and> (\<forall>w \<in> set (findall_words None False (lower persona)). 4 \<le> length w)
   \<and> filter (\<lambda>w. w \<notin> common_words) (findall_words None False (lower persona))
       = findall_words None False (lower persona)
   \<and> extract_expertise_areas persona
       = set (domain_keywords persona) \<union> set (findall_words None False (lower persona))"
proof -
  have a: "\<forall>w \<in> common_words. length w = 3"
    using common_words_length by blast
  have b: "\<forall>w \<in> set (findall_words None False (lower persona)). 4 \<le> length w"
    using findall_words_length by blast
  have c: "filter (\<lambda>w. w \<notin> common_words) (findall_words None False (lower persona))
      = findall_words None False (lower persona)"
  proof (rule filter_True, rule ballI)
    fix w assume "w \<in> set (findall_words None False (lower persona))"
    then have "4 \<le> length w" using b by blast
    then show "w \<notin> common_words" using a by fastforce
  qed
  have d: "extract_expertise_areas persona
      = set (domain_keywords persona) \<union> set (findall_words None False (lower persona))"
    unfolding extract_expertise_areas_def Let_def c by simp
  show ?thesis using a b c d by blast
qed

theorem extract_expertise_areas_no_stopword_witness:
  "''the'' \<in> common_words \<and> length ''the'' = 3
   \<and> findall_words None False (lower ''Graduate student and the lab'') = [''graduate'', ''student'']
   \<and> extract_expertise_areas ''Graduate student and the lab''
       = {''graduate'', ''student'', ''chemistry'', ''organic'', ''reaction'', ''kinetics'',
          ''mechanisms''}"
  using extract_expertise_areas_no_stopword [of "''Graduate student and the lab''"]
  by code_simp

section \<open>Post-processing of the outline\<close>

lemma remove_duplicates_subset: "set (remove_duplicates seen xs) \<subseteq> set xs"
  by (induction xs arbitrary: seen) (auto simp: Let_def)

lemma remove_duplicates_fresh:
  "x \<in> set (remove_duplicates seen xs) \<Longrightarrow> item_key x \<notin> seen"
  by (induction xs arbitrary: seen) (auto simp: Let_def split: if_splits)

lemma remove_duplicates_distinct: "distinct (map item_key (remove_duplicates seen xs))"
  by (induction xs arbitrary: seen) (auto simp: Let_def dest: remove_duplicates_fresh)

lemma remove_duplicates_id:
  "distinct (map item_key xs) \<Longrightarrow> item_key ` set xs \<inter> seen = {} \<Longrightarrow>
   remove_duplicates seen xs = xs"
  by (induction xs arbitrary: seen) (auto simp: Let_def)

lemma apply_limits_subset: "set (apply_limits pc xs) \<subseteq> set xs"
  by (induction xs arbitrary: pc) (auto simp: Let_def)

lemma apply_limits_distinct:
  "distinct (map f xs) \<Longrightarrow> distinct (map f (apply_limits pc xs))"
proof (induction xs arbitrary: pc)
  case Nil
  then show ?case by simp
next
  case (Cons x xs)
  have "f x \<notin> f ` set (apply_limits (pc(item_page x := pc (item_page x) + 1)) xs)"
    using Cons.prems apply_limits_subset by fastforce
  then show ?case using Cons by (simp add: Let_def)
qed

lemma apply_limits_sorted:
  "sorted (map f xs) \<Longrightarrow> sorted (map f (apply_limits pc xs))"
proof (induction xs arbitrary: pc)
  case Nil
  then show ?case by simp
next
  case (Cons x xs)
  have "\<forall>y \<in> set (apply_limits (pc(item_page x := pc (item_page x) + 1)) xs). f x \<le> f y"
    using Cons.prems apply_limits_subset by fastforce
  then show ?case using Cons by (simp add: Let_def)
qed

lemma apply_limits_confidence:
  "x \<in> set (apply_limits pc xs) \<Longrightarrow> 7 / 10 \<le> confidence x"
  by (induction xs arbitrary: pc) (auto simp: Let_def split: if_splits)

lemma apply_limits_per_page:
  "pc p \<le> max_per_page \<Longrightarrow>
   pc p + length (filter (\<lambda>x. item_page x = p) (apply_limits pc xs)) \<le> max_per_page"
proof (induction xs arbitrary: pc)
  case Nil
  then show ?case by simp
next
  case (Cons x xs)
  show ?case
  proof (cases "pc (item_page x) < max_per_page \<and> 7 / 10 \<le> confidence x")
    case True
    let ?pc = "pc(item_page x := pc (item_page x) + 1)"
    have "?pc p \<le> max_per_page" using True Cons.prems by auto
    then have "?pc p + length (filter (\<lambda>x. item_page x = p) (apply_limits ?pc xs))
        \<le> max_per_page"
      by (rule Cons.IH[of ?pc])
    then show ?thesis using True by (auto simp: Let_def)
  next
    case False
    then show ?thesis using Cons by (auto simp: Let_def)
  qed
qed

lemma apply_limits_id:
  "\<forall>x \<in> set xs. 7 / 10 \<le> confidence x \<Longrightarrow>
   \<forall>p. pc p + length (filter (\<lambda>x. item_page x = p) xs) \<le> max_per_page \<Longrightarrow>
   apply_limits pc xs = xs"
proof (induction xs arbitrary: pc)
  case Nil
  then show ?case by simp
next
  case (Cons x xs)
  let ?pc = "pc(item_page x := pc (item_page x) + 1)"
  have lt: "pc (item_page x) < max_per_page"
    using Cons.prems(2)[rule_format, of "item_page x"] by simp
  have "\<forall>p. ?pc p + length (filter (\<lambda>x. item_page x = p) xs) \<le> max_per_page"
  proof
    fix p show "?pc p + length (filter (\<lambda>x. item_page x = p) xs) \<le> max_per_page"
      using Cons.prems(2)[rule_format, of p] by (cases "p = item_page x") auto
  qed
  then have "apply_limits ?pc xs = xs" using Cons.IH Cons.prems(1) by simp
  then show ?case using lt Cons.prems(1) by (simp add: Let_def)
qed

lemma insort_key_lex:
  fixes k1 :: "'a \<Rightarrow> 'b::linorder" and k2 :: "'a \<Rightarrow> 'c::linorder"
  assumes "\<forall>y \<in> set ys. k2 x \<le> k2 y" and "sorted (map (\<lambda>x. (k1 x, k2 x)) ys)"
  shows "sorted (map (\<lambda>x. (k1 x, k2 x)) (insort_key k1 x ys))"
  using assms
proof (induction ys)
  case Nil
  then show ?case by simp
next
  case (Cons y ys)
  show ?case
  proof (cases "k1 x \<le> k1 y")
    case True
    have "\<forall>z \<in> set (y # ys). (k1 x, k2 x) \<le> (k1 z, k2 z)"
    proof
      fix z assume z: "z \<in> set (y # ys)"
      have "(k1 y, k2 y) \<le> (k1 z, k2 z)" using Cons.prems(2) z by auto
      then have "k1 y \<le> k1 z" by (auto simp: less_eq_prod_def)
      then have "k1 x \<le> k1 z" using True by simp
      moreover have "k2 x \<le> k2 z" using Cons.prems(1) z by blast
      ultimately show "(k1 x, k2 x) \<le> (k1 z, k2 z)" by (auto simp: less_eq_prod_def)
    qed
    then show ?thesis using True Cons.prems(2) by simp
  next
    case False
    have "sorted (map (\<lambda>x. (k1 x, k2 x)) (insort_key k1 x ys))"
      using Cons by simp
    moreover have "\<forall>z \<in> set (insort_key k1 x ys). (k1 y, k2 y) \<le> (k1 z, k2 z)"
      using False Cons.prems(2) by (auto simp: set_insort_key less_eq_prod_def)
    ultimately show ?thesis using False by simp
  qed
qed

lemma sort_key_lex:
  fixes k1 :: "'a \<Rightarrow> 'b::linorder" and k2 :: "'a \<Rightarrow> 'c::linorder"
  shows "sorted (map k2 xs) \<Longrightarrow> sorted (map (\<lambda>x. (k1 x, k2 x)) (sort_key k1 xs))"
proof (induction xs)
  case Nil
  then show ?case by simp
next
  case (Cons x xs)
  have "\<forall>y \<in> set (sort_key k1 xs). k2 x \<le> k2 y" using Cons.prems by auto
  moreover have "sorted (map (\<lambda>x. (k1 x, k2 x)) (sort_key k1 xs))" using Cons by simp
  ultimately show ?case using insort_key_lex[of "sort_key k1 xs" k2 x k1] by simp
qed


lemma distinct_map_sort_key: "distinct (map f (sort_key k xs)) = distinct (map f xs)"
  by (rule mset_eq_imp_distinct_iff) simp

lemma mset_take_subseteq: "mset (take n xs) \<subseteq># mset xs"
proof -
  have "mset xs = mset (take n xs) + mset (drop n xs)"
    by (metis append_take_drop_id mset_append)
  then show ?thesis by simp
qed

lemma length_filter_mset_mono:
  assumes "mset xs \<subseteq># mset ys"
  shows "length (filter P xs) \<le> length (filter P ys)"
proof -
  have "filter_mset P (mset xs) \<subseteq># filter_mset P (mset ys)"
    using assms by (rule multiset_filter_mono)
  then have "size (filter_mset P (mset xs)) \<le> size (filter_mset P (mset ys))"
    by (rule size_mset_mono)
  then show ?thesis by (simp flip: mset_filter)
qed

text \<open>The outline after the first three steps, and what is known of it.\<close>

lemma filtered_outline_facts:
  fixes outl :: "outline_item list"
  defines "F \<equiv> apply_limits (\<lambda>_. 0)
     (sort_key (\<lambda>x. (item_page x, - confidence x)) (remove_duplicates {} outl))"
  shows "distinct (map item_key F)"
    and "\<forall>x \<in> set F. 7 / 10 \<le> confidence x"
    and "\<forall>p. length (filter (\<lambda>x. item_page x = p) F) \<le> max_per_page"
    and "sorted (map (\<lambda>x. (item_page x, - confidence x)) F)"
proof -
  show "distinct (map item_key F)"
    unfolding F_def
    by (intro apply_limits_distinct) (simp add: distinct_map_sort_key remove_duplicates_distinct)
  show "\<forall>x \<in> set F. 7 / 10 \<le> confidence x"
    unfolding F_def using apply_limits_confidence by blast
  show "\<forall>p. length (filter (\<lambda>x. item_page x = p) F) \<le> max_per_page"
    unfolding F_def using apply_limits_per_page[of "\<lambda>_. 0"] by simp
  show "sorted (map (\<lambda>x. (item_page x, - confidence x)) F)"
    unfolding F_def by (intro apply_limits_sorted) simp
qed

text \<open>The global limit: the twenty most confident entries, back in page order.\<close>

lemma global_limit_facts:
  fixes F :: "outline_item list"
  defines "T \<equiv> sort_key item_page (take 20 (sort_key (\<lambda>x. - confidence x) F))"
  shows "length T \<le> 20"
    and "mset T \<subseteq># mset F"
    and "distinct (map item_key F) \<Longrightarrow> distinct (map item_key T)"
    and "sorted (map (\<lambda>x. (item_page x, - confidence x)) T)"
proof -
  show "length T \<le> 20" unfolding T_def by simp
  have "mset (take 20 (sort_key (\<lambda>x. - confidence x) F))
          \<subseteq># mset (sort_key (\<lambda>x. - confidence x) F)"
    by (rule mset_take_subseteq)
  then show "mset T \<subseteq># mset F" unfolding T_def by simp
  show "distinct (map item_key T)" if "distinct (map item_key F)"
  proof -
    have "distinct (map item_key (sort_key (\<lambda>x. - confidence x) F))"
      using that by (simp add: distinct_map_sort_key)
    then have "distinct (take 20 (map item_key (sort_key (\<lambda>x. - confidence x) F)))"
      by (rule distinct_take)
    then show ?thesis unfolding T_def by (simp add: distinct_map_sort_key take_map)
  qed
  have "sorted (take 20 (map (\<lambda>x. - confidence x) (sort_key (\<lambda>x. - confidence x) F)))"
    by (intro sorted_wrt_take) simp
  then have "sorted (map (\<lambda>x. - confidence x) (take 20 (sort_key (\<lambda>x. - confidence x) F)))"
    by (simp add: take_map)
  then show "sorted (map (\<lambda>x. (item_page x, - confidence x)) T)"
    unfolding T_def by (rule sort_key_lex)
qed

lemma post_process_outline_facts:
  "length (post_process_outline outl) \<le> 20"
  "distinct (map item_key (post_process_outline outl))"
  "\<forall>x \<in> set (post_process_outline outl). 7 / 10 \<le> confidence x"
  "\<forall>p. length (filter (\<lambda>x. item_page x = p) (post_process_outline outl)) \<le> max_per_page"
  "sorted (map (\<lambda>x. (item_page x, - confidence x)) (post_process_outline outl))"
proof -
  define F where "F = apply_limits (\<lambda>_. 0)
     (sort_key (\<lambda>x. (item_page x, - confidence x)) (remove_duplicates {} outl))"
  define T where "T = sort_key item_page (take 20 (sort_key (\<lambda>x. - confidence x) F))"
  note f = filtered_outline_facts[of outl, folded F_def]
  note t = global_limit_facts[of F, folded T_def]
  have r: "post_process_outline outl =
      (if outl = [] then [] else if length F > 20 then T else F)"
    by (simp add: post_process_outline_def Let_def F_def T_def)
  have setT: "set T \<subseteq> set F" using set_mset_mono[OF t(2)] by simp
  show "length (post_process_outline outl) \<le> 20" using r t(1) by simp
  show "distinct (map item_key (post_process_outline outl))" using r f(1) t(3) by simp
  show "\<forall>x \<in> set (post_process_outline outl). 7 / 10 \<le> confidence x"
    using r f(2) setT by auto
  show "\<forall>p. length (filter (\<lambda>x. item_page x = p) (post_process_outline outl)) \<le> max_per_page"
  proof
    fix p
    have "length (filter (\<lambda>x. item_page x = p) T) \<le> length (filter (\<lambda>x. item_page x = p) F)"
      using t(2) by (rule length_filter_mset_mono)
    then show "length (filter (\<lambda>x. item_page x = p) (post_process_outline outl)) \<le> max_per_page"
      using r f(3)[rule_format, of p] by simp
  qed
  show "sorted (map (\<lambda>x. (item_page x, - confidence x)) (post_process_outline outl))"
    using r f(4) t(4) by simp
qed

text \<open>
  C3. Whatever the candidates, the post-processed outline has at most 5 entries on any
  page and at most 20 in all, no entry with a confidence below \<open>7/10\<close>, and no two
  entries with the same key (lowered trimmed text, page).
\<close>

theorem post_process_outline_limits:
  "(\<forall>p. length (filter (\<lambda>x. item_page x = p) (post_process_outline outl)) \<le> 5)
   \<and> length (post_process_outline outl) \<le> 20
   \<and> (\<forall>x \<in> set (post_process_outline outl). 7 / 10 \<le> confidence x)
   \<and> distinct (map item_key (post_process_outline outl))"
  using post_process_outline_facts[of outl] by (simp add: max_per_page_def)

theorem post_process_outline_limits_witness:
  "post_process_outline
     [\<lparr>level = H2, item_text = ''1. Scope'', item_page = 0, confidence = 3 / 4\<rparr>,
      \<lparr>level = H1, item_text = ''Introduction'', item_page = 0, confidence = 9 / 10\<rparr>,
      \<lparr>level = H1, item_text = ''INTRODUCTION'', item_page = 0, confidence = 1\<rparr>,
      \<lparr>level = H3, item_text = ''Notes:'', item_page = 1, confidence = 1 / 2\<rparr>]
   = [\<lparr>level = H1, item_text = ''Introduction'', item_page = 0, confidence = 9 / 10\<rparr>,
      \<lparr>level = H2, item_text = ''1. Scope'', item_page = 0, confidence = 3 / 4\<rparr>]
   \<and> length (filter (\<lambda>x. item_page x = 0)
        (post_process_outline
          [\<lparr>level = H2, item_text = ''1. Scope'', item_page = 0, confidence = 3 / 4\<rparr>,
           \<lparr>level = H1, item_text = ''Introduction'', item_page = 0, confidence = 9 / 10\<rparr>,
           \<lparr>level = H1, item_text = ''INTRODUCTION'', item_page = 0, confidence = 1\<rparr>,
           \<lparr>level = H3, item_text = ''Notes:'', item_page = 1, confidence = 1 / 2\<rparr>])) \<le> 5
   \<and> distinct (map item_key
        (post_process_outline
          [\<lparr>level = H2, item_text = ''1. Scope'', item_page = 0, confidence = 3 / 4\<rparr>,
           \<lparr>level = H1, item_text = ''Introduction'', item_page = 0, confidence = 9 / 10\<rparr>,
           \<lparr>level = H1, item_text = ''INTRODUCTION'', item_page = 0, confidence = 1\<rparr>,
           \<lparr>level = H3, item_text = ''Notes:'', item_page = 1, confidence = 1 / 2\<rparr>]))"
proof -
  have run: "post_process_outline
     [\<lparr>level = H2, item_text = ''1. Scope'', item_page = 0, confidence = 3 / 4\<rparr>,
      \<lparr>level = H1, item_text = ''Introduction'', item_page = 0, confidence = 9 / 10\<rparr>,
      \<lparr>level = H1, item_text = ''INTRODUCTION'', item_page = 0, confidence = 1\<rparr>,
      \<lparr>level = H3, item_text = ''Notes:'', item_page = 1, confidence = 1 / 2\<rparr>]
   = [\<lparr>level = H1, item_text = ''Introduction'', item_page = 0, confidence = 9 / 10\<rparr>,
      \<lparr>level = H2, item_text = ''1. Scope'', item_page = 0, confidence = 3 / 4\<rparr>]"
    by code_simp
  show ?thesis
    using run post_process_outline_limits
      [of "[\<lparr>level = H2, item_text = ''1. Scope'', item_page = 0, confidence = 3 / 4\<rparr>,
            \<lparr>level = H1, item_text = ''Introduction'', item_page = 0, confidence = 9 / 10\<rparr>,
            \<lparr>level = H1, item_text = ''INTRODUCTION'', item_page = 0, confidence = 1\<rparr>,
            \<lparr>level = H3, item_text = ''Notes:'', item_page = 1, confidence = 1 / 2\<rparr>]"]
    by blast
qed

lemma post_process_outline_fixed:
  assumes "length r \<le> 20" and "distinct (map item_key r)"
    and "\<forall>x \<in> set r. 7 / 10 \<le> confidence x"
    and "\<forall>p. length (filter (\<lambda>x. item_page x = p) r) \<le> max_per_page"
    and "sorted (map (\<lambda>x. (item_page x, - confidence x)) r)"
  shows "post_process_outline r = r"
proof -
  have a: "remove_duplicates {} r = r" using assms(2) by (simp add: remove_duplicates_id)
  have b: "sort_key (\<lambda>x. (item_page x, - confidence x)) r = r"
    using assms(5) by (rule sort_key_id_if_sorted)
  have c: "apply_limits (\<lambda>_. 0) r = r" using assms(3,4) by (simp add: apply_limits_id)
  show ?thesis using assms(1) by (simp add: post_process_outline_def Let_def a b c)
qed

text \<open>
  C8. The post-processed outline is a fixed point of the post-processing: it has no
  duplicate key, is in the order of the sort, passes the filter whole and is within the
  global limit, so a second run returns the same list, hence the same set of entries.
\<close>

theorem post_process_outline_idempotent:
  "post_process_outline (post_process_outline outl) = post_process_outline outl"
  by (rule post_process_outline_fixed) (rule post_process_outline_facts)+

theorem post_process_outline_idempotent_witness:
  "post_process_outline
     [\<lparr>level = H2, item_text = ''1. Scope'', item_page = 1, confidence = 3 / 4\<rparr>,
      \<lparr>level = H1, item_text = ''Abstract'', item_page = 0, confidence = 4 / 5\<rparr>,
      \<lparr>level = H1, item_text = ''abstract'', item_page = 0, confidence = 1\<rparr>]
   = [\<lparr>level = H1, item_text = ''Abstract'', item_page = 0, confidence = 4 / 5\<rparr>,
      \<lparr>level = H2, item_text = ''1. Scope'', item_page = 1, confidence = 3 / 4\<rparr>]
   \<and> post_process_outline
     [\<lparr>level = H1, item_text = ''Abstract'', item_page = 0, confidence = 4 / 5\<rparr>,
      \<lparr>level = H2, item_text = ''1. Scope'', item_page = 1, confidence = 3 / 4\<rparr>]
   = [\<lparr>level = H1, item_text = ''Abstract'', item_page = 0, confidence = 4 / 5\<rparr>,
      \<lparr>level = H2, item_text = ''1. Scope'', item_page = 1, confidence = 3 / 4\<rparr>]"
proof -
  have run: "post_process_outline
     [\<lparr>level = H2, item_text = ''1. Scope'', item_page = 1, confidence = 3 / 4\<rparr>,
      \<lparr>level = H1, item_text = ''Abstract'', item_page = 0, confidence = 4 / 5\<rparr>,
      \<lparr>level = H1, item_text = ''abstract'', item_page = 0, confidence = 1\<rparr>]
   = [\<lparr>level = H1, item_text = ''Abstract'', item_page = 0, confidence = 4 / 5\<rparr>,
      \<lparr>level = H2, item_text = ''1. Scope'', item_page = 1, confidence = 3 / 4\<rparr>]"
    by code_simp
  show ?thesis
    using run post_process_outline_idempotent
      [of "[\<lparr>level = H2, item_text = ''1. Scope'', item_page = 1, confidence = 3 / 4\<rparr>,
            \<lparr>level = H1, item_text = ''Abstract'', item_page = 0, confidence = 4 / 5\<rparr>,
            \<lparr>level = H1, item_text = ''abstract'', item_page = 0, confidence = 1\<rparr>]"]
    by simp
qed

section \<open>Ranking and selection\<close>

lemma select_sections_length:
  "length selected \<le> max_sections \<Longrightarrow>
   length (select_sections selected dc rest) \<le> max_sections"
  by (induction rest arbitrary: selected dc) (auto simp: Let_def)

lemma select_sections_score:
  "\<forall>s \<in> set selected. min_score \<le> relevance_score s \<Longrightarrow>
   \<forall>s \<in> set (select_sections selected dc rest). min_score \<le> relevance_score s"
proof (induction rest arbitrary: selected dc)
  case Nil
  then show ?case by simp
next
  case (Cons a rest)
  have ext: "\<forall>s \<in> set (selected @ [a]). min_score \<le> relevance_score s"
    if "\<not> relevance_score a < min_score"
    using that Cons.prems by auto
  show ?case
    using Cons.prems Cons.IH[OF Cons.prems] Cons.IH[OF ext] by (simp add: Let_def)
qed

lemma select_sections_per_doc:
  "\<forall>d. length (filter (\<lambda>s. document s = d) selected) \<le> dc d \<and> dc d \<le> max_per_doc \<Longrightarrow>
   length (filter (\<lambda>s. document s = d) (select_sections selected dc rest)) \<le> max_per_doc"
proof (induction rest arbitrary: selected dc)
  case Nil
  have "length (filter (\<lambda>s. document s = d) selected) \<le> dc d" and "dc d \<le> max_per_doc"
    using Nil by auto
  then show ?case by simp
next
  case (Cons s rest)
  define dc' where "dc' = dc(document s := Suc (dc (document s)))"
  have stop: "length (filter (\<lambda>x. document x = d) selected) \<le> max_per_doc"
    using Cons.prems le_trans by blast
  have skip: "length (filter (\<lambda>x. document x = d) (select_sections selected dc rest))
      \<le> max_per_doc"
    using Cons.prems by (rule Cons.IH)
  have take: "length (filter (\<lambda>x. document x = d) (select_sections (selected @ [s]) dc' rest))
      \<le> max_per_doc" if "\<not> max_per_doc \<le> dc (document s)"
  proof (rule Cons.IH, rule allI)
    fix e
    have "length (filter (\<lambda>x. document x = e) selected) \<le> dc e" and "dc e \<le> max_per_doc"
      using Cons.prems by auto
    then show "length (filter (\<lambda>x. document x = e) (selected @ [s])) \<le> dc' e
        \<and> dc' e \<le> max_per_doc"
      using that by (auto simp: dc'_def)
  qed
  show ?case
    using stop skip take[unfolded dc'_def] by (simp add: Let_def)
qed

lemma select_sections_sorted:
  "sorted (map f (selected @ rest)) \<Longrightarrow> sorted (map f (select_sections selected dc rest))"
proof (induction rest arbitrary: selected dc)
  case Nil
  then show ?case by simp
next
  case (Cons s rest)
  have a: "sorted (map f selected)" using Cons.prems by (simp add: sorted_append)
  have b: "sorted (map f (selected @ rest))" using Cons.prems by (auto simp: sorted_append)
  have c: "sorted (map f ((selected @ [s]) @ rest))" using Cons.prems by simp
  show ?case using a Cons.IH[OF b] Cons.IH[OF c] by (simp add: Let_def)
qed

lemma ranked_document:
  "map document (map (\<lambda>(i, s). s\<lparr>rank := Some (i + 1)\<rparr>) (enumerate n xs)) = map document xs"
  by (induction xs arbitrary: n) auto

lemma ranked_relevance_score:
  "map relevance_score (map (\<lambda>(i, s). s\<lparr>rank := Some (i + 1)\<rparr>) (enumerate n xs))
     = map relevance_score xs"
  by (induction xs arbitrary: n) auto

lemma ranked_rank:
  "map rank (map (\<lambda>(i, s). s\<lparr>rank := Some (i + 1)\<rparr>) (enumerate n xs))
     = map (\<lambda>i. Some (Suc i)) [n..<n + length xs]"
proof (induction xs arbitrary: n)
  case Nil
  then show ?case by simp
next
  case (Cons x xs)
  have "[n..<n + length (x # xs)] = n # [Suc n..<n + length (x # xs)]"
    by (rule upt_conv_Cons) simp
  then show ?case using Cons[of "Suc n"] by simp
qed

lemma length_filter_map_eq:
  "map f xs = map f ys \<Longrightarrow> length (filter (\<lambda>x. f x = d) xs) = length (filter (\<lambda>x. f x = d) ys)"
proof -
  assume "map f xs = map f ys"
  then have "filter (\<lambda>v. v = d) (map f xs) = filter (\<lambda>v. v = d) (map f ys)" by simp
  then have "length (map f (filter (\<lambda>x. f x = d) xs)) = length (map f (filter (\<lambda>x. f x = d) ys))"
    by (simp add: filter_map comp_def)
  then show ?thesis by simp
qed

text \<open>
  C4. Whatever the scored sections, the selection has at most 10 sections, at most 3 of
  any one document and none with a score below \<open>3/10\<close>; the ranks are 1, 2, 3, ... along
  the list, and the scores descend along it.
\<close>

theorem rank_and_select_limits:
  "length (rank_and_select scored) \<le> 10
   \<and> (\<forall>d. length (filter (\<lambda>s. document s = d) (rank_and_select scored)) \<le> 3)
   \<and> (\<forall>s \<in> set (rank_and_select scored). 3 / 10 \<le> relevance_score s)
   \<and> map rank (rank_and_select scored) = map Some [1..<Suc (length (rank_and_select scored))]
   \<and> sorted_wrt (\<lambda>a b. a \<ge> b) (map relevance_score (rank_and_select scored))"
proof (cases "scored = []")
  case True
  then show ?thesis by (simp add: rank_and_select_def)
next
  case False
  define sel where "sel = select_sections [] (\<lambda>_. 0)
     (sort_key (\<lambda>x. - relevance_score x) scored)"
  define r where "r = map (\<lambda>(i, s). s\<lparr>rank := Some (i + 1)\<rparr>) (enumerate 0 sel)"
  have r: "rank_and_select scored = r"
    using False by (simp add: rank_and_select_def Let_def r_def sel_def)
  have len: "length r = length sel" by (simp add: r_def)
  have l: "length sel \<le> 10"
    using select_sections_length[of "[]"] by (simp add: sel_def max_sections_def)
  have d: "length (filter (\<lambda>s. document s = d) r) \<le> 3" for d
  proof -
    have "length (filter (\<lambda>s. document s = d) sel) \<le> max_per_doc"
      unfolding sel_def by (rule select_sections_per_doc) simp
    moreover have "length (filter (\<lambda>s. document s = d) r) = length (filter (\<lambda>s. document s = d) sel)"
      by (rule length_filter_map_eq) (simp only: r_def ranked_document)
    ultimately show ?thesis by (simp add: max_per_doc_def)
  qed
  have "\<forall>s \<in> set sel. min_score \<le> relevance_score s"
    unfolding sel_def by (rule select_sections_score) simp
  then have "\<forall>v \<in> set (map relevance_score sel). 3 / 10 \<le> v"
    by (simp add: min_score_def)
  then have "\<forall>v \<in> set (map relevance_score r). 3 / 10 \<le> v"
    by (simp only: r_def ranked_relevance_score)
  then have s: "\<forall>s \<in> set r. 3 / 10 \<le> relevance_score s" by simp
  have "map rank r = map Some (map Suc [0..<length sel])"
    using ranked_rank[of 0 sel] by (simp add: r_def)
  then have k: "map rank r = map Some [1..<Suc (length r)]"
    by (simp only: map_Suc_upt len One_nat_def)
  have "sorted (map (\<lambda>x. - relevance_score x) sel)"
    unfolding sel_def by (rule select_sections_sorted) simp
  then have "sorted_wrt (\<lambda>a b. a \<ge> b) (map relevance_score sel)"
    by (simp add: sorted_wrt_map)
  then have o: "sorted_wrt (\<lambda>a b. a \<ge> b) (map relevance_score r)"
    by (simp only: r_def ranked_relevance_score)
  show ?thesis using r len l d s k o by simp
qed

theorem rank_and_select_limits_witness:
  "rank_and_select
      [\<lparr>section_title = ''Methods'', content = ''we measure '', document = ''a.pdf'',
        section_page = 1, section_type = ''methodology'', relevance_score = 1 / 2, rank = None\<rparr>,
       \<lparr>section_title = ''Results'', content = ''we find '', document = ''b.pdf'',
        section_page = 0, section_type = ''results'', relevance_score = 9 / 10, rank = None\<rparr>,
       \<lparr>section_title = ''Thanks'', content = ''we thank '', document = ''a.pdf'',
        section_page = 7, section_type = ''general'', relevance_score = 1 / 5, rank = None\<rparr>]
   = [\<lparr>section_title = ''Results'', content = ''we find '', document = ''b.pdf'',
        section_page = 0, section_type = ''results'', relevance_score = 9 / 10, rank = Some 1\<rparr>,
       \<lparr>section_title = ''Methods'', content = ''we measure '', document = ''a.pdf'',
        section_page = 1, section_type = ''methodology'', relevance_score = 1 / 2, rank = Some 2\<rparr>]
   \<and> length (rank_and_select
      [\<lparr>section_title = ''Methods'', content = ''we measure '', document = ''a.pdf'',
        section_page = 1, section_type = ''methodology'', relevance_score = 1 / 2, rank = None\<rparr>,
       \<lparr>section_title = ''Results'', content = ''we find '', document = ''b.pdf'',
        section_page = 0, section_type = ''results'', relevance_score = 9 / 10, rank = None\<rparr>,
       \<lparr>section_title = ''Thanks'', content = ''we thank '', document = ''a.pdf'',
        section_page = 7, section_type = ''general'', relevance_score = 1 / 5, rank = None\<rparr>]) \<le> 10
   \<and> map rank (rank_and_select
      [\<lparr>section_title = ''Methods'', content = ''we measure '', document = ''a.pdf'',
        section_page = 1, section_type = ''methodology'', relevance_score = 1 / 2, rank = None\<rparr>,
       \<lparr>section_title = ''Results'', content = ''we find '', document = ''b.pdf'',
        section_page = 0, section_type = ''results'', relevance_score = 9 / 10, rank = None\<rparr>,
       \<lparr>section_title = ''Thanks'', content = ''we thank '', document = ''a.pdf'',
        section_page = 7, section_type = ''general'', relevance_score = 1 / 5, rank = None\<rparr>]) = [Some 1, Some 2]"
proof -
  have run: "rank_and_select
      [\<lparr>section_title = ''Methods'', content = ''we measure '', document = ''a.pdf'',
        section_page = 1, section_type = ''methodology'', relevance_score = 1 / 2, rank = None\<rparr>,
       \<lparr>section_title = ''Results'', content = ''we find '', document = ''b.pdf'',
        section_page = 0, section_type = ''results'', relevance_score = 9 / 10, rank = None\<rparr>,
       \<lparr>section_title = ''Thanks'', content = ''we thank '', document = ''a.pdf'',
        section_page = 7, section_type = ''general'', relevance_score = 1 / 5, rank = None\<rparr>]
   = [\<lparr>section_title = ''Results'', content = ''we find '', document = ''b.pdf'',
        section_page = 0, section_type = ''results'', relevance_score = 9 / 10, rank = Some 1\<rparr>,
       \<lparr>section_title = ''Methods'', content = ''we measure '', document = ''a.pdf'',
        section_page = 1, section_type = ''methodology'', relevance_score = 1 / 2, rank = Some 2\<rparr>]"
    by code_simp
  show ?thesis
    using run rank_and_select_limits
      [of "[\<lparr>section_title = ''Methods'', content = ''we measure '', document = ''a.pdf'',
        section_page = 1, section_type = ''methodology'', relevance_score = 1 / 2, rank = None\<rparr>,
       \<lparr>section_title = ''Results'', content = ''we find '', document = ''b.pdf'',
        section_page = 0, section_type = ''results'', relevance_score = 9 / 10, rank = None\<rparr>,
       \<lparr>section_title = ''Thanks'', content = ''we thank '', document = ''a.pdf'',
        section_page = 7, section_type = ''general'', relevance_score = 1 / 5, rank = None\<rparr>]"]
    by simp
qed

section \<open>The batch and its fallback\<close>





section \<open>The size thresholds\<close>

lemma first_max_mem: "first_max f b xs \<in> insert b (set xs)"
  by (induction xs arbitrary: b) auto

lemma most_common_mem: "most_common x xs \<in> set (x # xs)"
  using first_max_mem[of "count_list (x # xs)" x "counter_keys (x # xs)"]
  by (auto simp: most_common_def counter_keys_def)

lemma descending_Max:
  fixes x :: "'a::linorder"
  assumes "sorted_wrt (>) (x # xs)"
  shows "Max (set (x # xs)) = x" and "set (x # xs) - {x} = set xs"
proof -
  show "Max (set (x # xs)) = x"
    using assms by (intro Max_eqI) (auto simp: less_imp_le)
  show "set (x # xs) - {x} = set xs"
    using assms by auto
qed

lemma unique_sizes_descending:
  fixes xs :: "rat list"
  shows "sorted_wrt (>) (rev (sort (remdups xs)))"
proof -
  have "sorted_wrt (<) (sort (remdups xs))"
    by (simp add: strict_sorted_iff)
  then show ?thesis by (simp add: sorted_wrt_rev)
qed

lemma three_largest:
  fixes xs :: "rat list"
  assumes "3 \<le> length (rev (sort (remdups xs)))"
  shows "rev (sort (remdups xs)) ! 0 = Max (set xs)"
    and "rev (sort (remdups xs)) ! 1 = Max (set xs - {Max (set xs)})"
    and "rev (sort (remdups xs)) ! 2
           = Max (set xs - {Max (set xs), Max (set xs - {Max (set xs)})})"
    and "rev (sort (remdups xs)) ! 1 < rev (sort (remdups xs)) ! 0"
    and "rev (sort (remdups xs)) ! 2 < rev (sort (remdups xs)) ! 1"
proof -
  have "Suc (Suc (Suc 0)) \<le> length (rev (sort (remdups xs)))"
    using assms by (simp only: numeral_3_eq_3)
  then obtain a b c rest where us: "rev (sort (remdups xs)) = a # b # c # rest"
    unfolding Suc_le_length_iff by blast
  have d: "sorted_wrt (>) (a # b # c # rest)"
    using unique_sizes_descending[of xs] by (simp only: us)
  then have d1: "sorted_wrt (>) (b # c # rest)" and d2: "sorted_wrt (>) (c # rest)" by auto
  have s: "set xs = set (a # b # c # rest)"
    using arg_cong[OF us, of set] by simp
  have m0: "Max (set xs) = a" unfolding s using d by (rule descending_Max)
  have r0: "set xs - {a} = set (b # c # rest)" unfolding s using d by (rule descending_Max)
  have m1: "Max (set xs - {a}) = b" unfolding r0 using d1 by (rule descending_Max)
  have "set xs - {a, b} = (set xs - {a}) - {b}" by auto
  also have "\<dots> = set (c # rest)" unfolding r0 using d1 by (rule descending_Max)
  finally have r1: "set xs - {a, b} = set (c # rest)" .
  have m2: "Max (set xs - {a, b}) = c" unfolding r1 using d2 by (rule descending_Max)
  show "rev (sort (remdups xs)) ! 0 = Max (set xs)" by (simp add: us m0)
  show "rev (sort (remdups xs)) ! 1 = Max (set xs - {Max (set xs)})" by (simp add: us m0 m1)
  show "rev (sort (remdups xs)) ! 2
           = Max (set xs - {Max (set xs), Max (set xs - {Max (set xs)})})"
    by (simp add: us m0 m1 m2)
  show "rev (sort (remdups xs)) ! 1 < rev (sort (remdups xs)) ! 0" using d by (simp add: us)
  show "rev (sort (remdups xs)) ! 2 < rev (sort (remdups xs)) ! 1" using d by (simp add: us)
qed


lemma thresholds_nonempty:
  assumes "map max_size elems = s # ss"
  defines "us \<equiv> rev (sort (remdups (s # ss)))"
  shows "dominant_size (analyze_document_statistics elems) = most_common s ss"
    and "3 \<le> length us \<Longrightarrow> thresholds (analyze_document_statistics elems)
           = \<lparr>h1 = us ! 0, h2 = us ! 1, h3 = us ! 2\<rparr>"
    and "length us < 3 \<Longrightarrow> thresholds (analyze_document_statistics elems)
           = \<lparr>h1 = max (most_common s ss * (3 / 2)) (Max (set (s # ss)) * (9 / 10)),
              h2 = most_common s ss * (13 / 10), h3 = most_common s ss * (11 / 10)\<rparr>"
  using assms(1) by (simp_all add: analyze_document_statistics_def Let_def us_def)

text \<open>
  C7, as the code has it. The empty document has the thresholds 18/15/13; with at least
  three distinct maximal sizes the thresholds are the three largest of them, strictly
  descending; otherwise they are the multiples of the dominant size (and of the largest
  size, for \<open>h1\<close>). The order \<open>h1 \<ge> h2 \<ge> h3\<close> of the multiples needs a dominant size
  that is not negative, which holds when no size of the document is negative.
\<close>

theorem analyze_document_statistics_thresholds:
  "let t = thresholds (analyze_document_statistics elems);
       d = dominant_size (analyze_document_statistics elems);
       S = set (map max_size elems)
   in (elems = [] \<longrightarrow> d = 12 \<and> h1 t = 18 \<and> h2 t = 15 \<and> h3 t = 13)
    \<and> (3 \<le> card S \<longrightarrow> h1 t = Max S \<and> h2 t = Max (S - {h1 t}) \<and> h3 t = Max (S - {h1 t, h2 t})
          \<and> h3 t < h2 t \<and> h2 t < h1 t)
    \<and> (elems \<noteq> [] \<and> card S < 3 \<longrightarrow>
          h1 t = max (d * (3 / 2)) (Max S * (9 / 10)) \<and> h2 t = d * (13 / 10)
          \<and> h3 t = d * (11 / 10))
    \<and> ((\<forall>e \<in> set elems. 0 \<le> max_size e) \<longrightarrow> h1 t \<ge> h2 t \<and> h2 t \<ge> h3 t)"
proof (cases "map max_size elems")
  case Nil
  then have "elems = []" by simp
  then show ?thesis by (simp add: analyze_document_statistics_def)
next
  case (Cons s ss)
  define t where "t = thresholds (analyze_document_statistics elems)"
  define d where "d = dominant_size (analyze_document_statistics elems)"
  define us where "us = rev (sort (remdups (s # ss)))"
  have ne: "elems \<noteq> []" using Cons by auto
  have len: "length us = card (set (s # ss))"
    unfolding us_def length_rev length_sort by (rule length_remdups_card_conv)
  have dom: "d = most_common s ss"
    unfolding d_def using Cons by (rule thresholds_nonempty)
  have dmem: "d \<in> set (s # ss)" unfolding dom by (rule most_common_mem)
  have big: "h1 t = Max (set (s # ss)) \<and> h2 t = Max (set (s # ss) - {h1 t})
      \<and> h3 t = Max (set (s # ss) - {h1 t, h2 t}) \<and> h3 t < h2 t \<and> h2 t < h1 t"
    if "3 \<le> card (set (s # ss))"
  proof -
    have l: "3 \<le> length (rev (sort (remdups (s # ss))))" using that len by (simp add: us_def)
    have "t = \<lparr>h1 = us ! 0, h2 = us ! 1, h3 = us ! 2\<rparr>"
      unfolding t_def us_def using Cons l[folded us_def, unfolded us_def]
      by (intro thresholds_nonempty)
    then have "h1 t = us ! 0" "h2 t = us ! 1" "h3 t = us ! 2" by simp_all
    then show ?thesis using three_largest[OF l] by (simp add: us_def)
  qed
  have small: "h1 t = max (d * (3 / 2)) (Max (set (s # ss)) * (9 / 10)) \<and> h2 t = d * (13 / 10)
      \<and> h3 t = d * (11 / 10)"
    if "card (set (s # ss)) < 3"
  proof -
    have "length (rev (sort (remdups (s # ss)))) < 3" using that len by (simp add: us_def)
    with Cons have "t = \<lparr>h1 = max (most_common s ss * (3 / 2)) (Max (set (s # ss)) * (9 / 10)),
              h2 = most_common s ss * (13 / 10), h3 = most_common s ss * (11 / 10)\<rparr>"
      unfolding t_def by (rule thresholds_nonempty)
    then show ?thesis by (simp add: dom)
  qed
  have ord: "h1 t \<ge> h2 t \<and> h2 t \<ge> h3 t" if nn: "\<forall>e \<in> set elems. 0 \<le> max_size e"
  proof (cases "3 \<le> card (set (s # ss))")
    case True
    from big[OF True] have "h3 t < h2 t" and "h2 t < h1 t" by blast+
    then show ?thesis by (simp add: less_imp_le)
  next
    case False
    have "set (s # ss) = max_size ` set elems" using Cons[symmetric] by simp
    then have "0 \<le> d" using dmem nn by auto
    then have "d * (11 / 10) \<le> d * (13 / 10)" and "d * (13 / 10) \<le> d * (3 / 2)"
      by (simp_all add: mult_left_mono)
    then show ?thesis using small False by (simp add: max_def)
  qed
  show ?thesis
    unfolding Let_def Cons t_def[symmetric] d_def[symmetric]
    using ne big small ord by blast
qed

theorem analyze_document_statistics_thresholds_witness:
  "thresholds (analyze_document_statistics
       [\<lparr>line_text = ''plain body text'', page = 0, avg_size = 12, max_size = 12,
         is_bold = False, is_italic = False, bbox = [0, 0, 0, 0]\<rparr>,
        \<lparr>line_text = ''Annual Report'', page = 0, avg_size = 24, max_size = 24,
         is_bold = True, is_italic = False, bbox = [0, 0, 0, 0]\<rparr>,
        \<lparr>line_text = ''plain body text'', page = 0, avg_size = 12, max_size = 12,
         is_bold = False, is_italic = False, bbox = [0, 0, 0, 0]\<rparr>])
     = \<lparr>h1 = 108 / 5, h2 = 78 / 5, h3 = 66 / 5\<rparr>
   \<and> (0 :: rat) \<le> 12 \<and> (0 :: rat) \<le> 24
   \<and> h2 (thresholds (analyze_document_statistics
       [\<lparr>line_text = ''plain body text'', page = 0, avg_size = 12, max_size = 12,
         is_bold = False, is_italic = False, bbox = [0, 0, 0, 0]\<rparr>,
        \<lparr>line_text = ''Annual Report'', page = 0, avg_size = 24, max_size = 24,
         is_bold = True, is_italic = False, bbox = [0, 0, 0, 0]\<rparr>,
        \<lparr>line_text = ''plain body text'', page = 0, avg_size = 12, max_size = 12,
         is_bold = False, is_italic = False, bbox = [0, 0, 0, 0]\<rparr>]))
     \<le> h1 (thresholds (analyze_document_statistics
       [\<lparr>line_text = ''plain body text'', page = 0, avg_size = 12, max_size = 12,
         is_bold = False, is_italic = False, bbox = [0, 0, 0, 0]\<rparr>,
        \<lparr>line_text = ''Annual Report'', page = 0, avg_size = 24, max_size = 24,
         is_bold = True, is_italic = False, bbox = [0, 0, 0, 0]\<rparr>,
        \<lparr>line_text = ''plain body text'', page = 0, avg_size = 12, max_size = 12,
         is_bold = False, is_italic = False, bbox = [0, 0, 0, 0]\<rparr>]))
   \<and> h3 (thresholds (analyze_document_statistics
       [\<lparr>line_text = ''plain body text'', page = 0, avg_size = 12, max_size = 12,
         is_bold = False, is_italic = False, bbox = [0, 0, 0, 0]\<rparr>,
        \<lparr>line_text = ''Annual Report'', page = 0, avg_size = 24, max_size = 24,
         is_bold = True, is_italic = False, bbox = [0, 0, 0, 0]\<rparr>,
        \<lparr>line_text = ''plain body text'', page = 0, avg_size = 12, max_size = 12,
         is_bold = False, is_italic = False, bbox = [0, 0, 0, 0]\<rparr>]))
     \<le> h2 (thresholds (analyze_document_statistics
       [\<lparr>line_text = ''plain body text'', page = 0, avg_size = 12, max_size = 12,
         is_bold = False, is_italic = False, bbox = [0, 0, 0, 0]\<rparr>,
        \<lparr>line_text = ''Annual Report'', page = 0, avg_size = 24, max_size = 24,
         is_bold = True, is_italic = False, bbox = [0, 0, 0, 0]\<rparr>,
        \<lparr>line_text = ''plain body text'', page = 0, avg_size = 12, max_size = 12,
         is_bold = False, is_italic = False, bbox = [0, 0, 0, 0]\<rparr>]))"
proof -
  have run: "thresholds (analyze_document_statistics
       [\<lparr>line_text = ''plain body text'', page = 0, avg_size = 12, max_size = 12,
         is_bold = False, is_italic = False, bbox = [0, 0, 0, 0]\<rparr>,
        \<lparr>line_text = ''Annual Report'', page = 0, avg_size = 24, max_size = 24,
         is_bold = True, is_italic = False, bbox = [0, 0, 0, 0]\<rparr>,
        \<lparr>line_text = ''plain body text'', page = 0, avg_size = 12, max_size = 12,
         is_bold = False, is_italic = False, bbox = [0, 0, 0, 0]\<rparr>])
     = \<lparr>h1 = 108 / 5, h2 = 78 / 5, h3 = 66 / 5\<rparr>"
    by code_simp
  show ?thesis
    using run analyze_document_statistics_thresholds
      [of "[\<lparr>line_text = ''plain body text'', page = 0, avg_size = 12, max_size = 12,
         is_bold = False, is_italic = False, bbox = [0, 0, 0, 0]\<rparr>,
        \<lparr>line_text = ''Annual Report'', page = 0, avg_size = 24, max_size = 24,
         is_bold = True, is_italic = False, bbox = [0, 0, 0, 0]\<rparr>,
        \<lparr>line_text = ''plain body text'', page = 0, avg_size = 12, max_size = 12,
         is_bold = False, is_italic = False, bbox = [0, 0, 0, 0]\<rparr>]"]
    by (simp add: Let_def)
qed

text \<open>
  C7 as stated fails on a size below zero: for the single size \<open>-10\<close> the thresholds are
  \<open>-9\<close>, \<open>-13\<close> and \<open>-11\<close>, and \<open>h2 < h3\<close>.
\<close>

theorem analyze_document_statistics_negative_size:
  "thresholds (analyze_document_statistics
       [\<lparr>line_text = ''x y'', page = 0, avg_size = - 10, max_size = - 10,
         is_bold = False, is_italic = False, bbox = [0, 0, 0, 0]\<rparr>])
     = \<lparr>h1 = - 9, h2 = - 13, h3 = - 11\<rparr>
   \<and> (- 13 :: rat) < - 11"
  by code_simp

section \<open>The title\<close>

lemma length_join_Cons:
  "length (join sep (w # ws)) \<le> length w + length sep + length (join sep ws)"
  by (cases ws) simp_all

lemma length_join_split_from:
  "length (join '' '' (split_from w s)) \<le> length w + length s"
proof (induction s arbitrary: w)
  case Nil
  then show ?case by simp
next
  case (Cons c cs)
  have a: "length (join '' '' (split_from [] cs)) \<le> length cs"
    using Cons[of "[]"] by simp
  have b: "length (join '' '' (w # split_from [] cs)) \<le> length w + 1 + length cs"
    using length_join_Cons[of "'' ''" w "split_from [] cs"] a by simp
  have c: "length (join '' '' (split_from (w @ [c]) cs)) \<le> length w + 1 + length cs"
    using Cons[of "w @ [c]"] by simp
  show ?case using a b c by simp
qed

lemma length_join:
  "length (join sep ws) = sum_list (map length ws) + length sep * (length ws - 1)"
  by (induction sep ws rule: join.induct) simp_all

lemma length_join_butlast:
  "length (join sep (butlast ws)) \<le> length (join sep ws)"
proof (cases ws rule: rev_cases)
  case Nil
  then show ?thesis by simp
next
  case (snoc ys y)
  have "length sep * (length ys - Suc 0) \<le> length sep * length ys" by simp
  then have "length sep * (length ys - Suc 0) \<le> length y + length sep * length ys"
    by (rule trans_le_add2)
  then show ?thesis by (simp add: snoc length_join)
qed

lemma length_join_butlast_split:
  "length (join '' '' (butlast (split s))) \<le> length s"
  using length_join_butlast[of "'' ''" "split s"] length_join_split_from[of "[]" s]
  by (simp add: split_def)

lemma clean_title_cases:
  fixes t :: string
  defines "c \<equiv> strip (collapse_spaces t)"
  shows "length c < 3 \<Longrightarrow> clean_title t = ''Document''"
    and "3 \<le> length c \<Longrightarrow> length c \<le> 100 \<Longrightarrow> clean_title t = c"
    and "100 < length c \<Longrightarrow> 1 < length (split (take 100 c)) \<Longrightarrow>
           length (clean_title t) \<le> 100
           \<and> clean_title t
               = (if 3 \<le> length (join '' '' (butlast (split (take 100 c))))
                  then join '' '' (butlast (split (take 100 c))) else ''Document'')"
    and "100 < length c \<Longrightarrow> length (split (take 100 c)) \<le> 1 \<Longrightarrow> clean_title t = c"
proof -
  show "length c < 3 \<Longrightarrow> clean_title t = ''Document''"
    by (simp add: clean_title_def Let_def c_def)
  show "3 \<le> length c \<Longrightarrow> length c \<le> 100 \<Longrightarrow> clean_title t = c"
    by (simp add: clean_title_def Let_def c_def)
  show "length (clean_title t) \<le> 100
           \<and> clean_title t
               = (if 3 \<le> length (join '' '' (butlast (split (take 100 c))))
                  then join '' '' (butlast (split (take 100 c))) else ''Document'')"
    if "100 < length c" "1 < length (split (take 100 c))"
  proof -
    have "length (join '' '' (butlast (split (take 100 c)))) \<le> length (take 100 c)"
      by (rule length_join_butlast_split)
    then have "length (join '' '' (butlast (split (take 100 c)))) \<le> 100" by simp
    then show ?thesis using that by (simp add: clean_title_def Let_def c_def)
  qed
  show "100 < length c \<Longrightarrow> length (split (take 100 c)) \<le> 1 \<Longrightarrow> clean_title t = c"
    by (simp add: clean_title_def Let_def c_def)
qed

lemma title_candidates_none:
  "\<forall>(i, e) \<in> set ies. length (strip (line_text e)) < 3 \<Longrightarrow>
   title_candidates stats ies = Inr []"
  by (induction ies) (auto simp: Let_def)

lemma title_candidates_returns:
  "dominant_size stats \<noteq> 0 \<Longrightarrow> \<exists>cands. title_candidates stats ies = Inr cands"
proof (induction ies)
  case Nil
  then show ?case by simp
next
  case (Cons ie ies)
  obtain i e where ie: "ie = (i, e)" by (cases ie)
  from Cons obtain cands where "title_candidates stats ies = Inr cands" by blast
  then show ?case using Cons.prems
    by (simp add: ie Let_def calculate_size_score_def)
qed

lemma title_candidates_sound:
  "title_candidates stats ies = Inr cands \<Longrightarrow>
   \<forall>c \<in> set cands. 3 \<le> length (snd c) \<and> (\<exists>(i, e) \<in> set ies. snd c = strip (line_text e))"
proof (induction ies arbitrary: cands)
  case Nil
  then show ?case by simp
next
  case (Cons ie ies)
  obtain i e where ie: "ie = (i, e)" by (cases ie)
  show ?case
  proof (cases "strip (line_text e) = [] \<or> length (strip (line_text e)) < 3")
    case True
    then have "title_candidates stats ies = Inr cands"
      using Cons.prems by (simp add: ie Let_def)
    from Cons.IH[OF this] show ?thesis by auto
  next
    case False
    from Cons.prems False obtain sc rest where
      rest: "title_candidates stats ies = Inr rest" and
      cands: "cands = (sc, strip (line_text e)) # rest"
      by (auto simp: ie Let_def split: sum.splits)
    from Cons.IH[OF rest] False show ?thesis by (auto simp: cands ie)
  qed
qed

lemma sort_key_head_max:
  fixes f :: "'a \<Rightarrow> rat"
  assumes "sort_key (\<lambda>x. - f x) xs = b # rest"
  shows "b \<in> set xs" and "\<forall>x \<in> set xs. f x \<le> f b"
proof -
  have s: "set xs = set (b # rest)" using arg_cong[OF assms, of set] by simp
  then show "b \<in> set xs" by simp
  have "sorted (map (\<lambda>x. - f x) (b # rest))"
    using sorted_sort_key[of "\<lambda>x. - f x" xs] by (simp only: assms)
  then show "\<forall>x \<in> set xs. f x \<le> f b" unfolding s by auto
qed


lemma enumerate_snd_mem: "(i, e) \<in> set (enumerate n xs) \<Longrightarrow> e \<in> set xs"
  by (auto simp: enumerate_eq_zip dest: set_zip_rightD)

text \<open>
  C6, as the code has it. With \<open>c\<close> the title after the spaces are collapsed and trimmed:
  a \<open>c\<close> of fewer than 3 characters gives \<open>Document\<close>; a \<open>c\<close> of at most 100 characters
  is returned as it is; a longer \<open>c\<close> whose first 100 characters hold more than one word
  is cut to these words without the last one, joined by single blanks (at most 100
  characters), and \<open>Document\<close> is returned instead exactly when fewer than 3 characters
  are left; a longer \<open>c\<close> whose first 100 characters are one word is
  returned whole. The title of an empty document, and of a document whose first 15 lines
  of page 0 all have fewer than 3 characters, is \<open>Document\<close>. Otherwise, with a dominant
  size that is not zero, the title is the cleaned text of a candidate with the largest
  total score.
\<close>

theorem extract_document_title_clean:
  "(let c = strip (collapse_spaces t) in
      (length c < 3 \<longrightarrow> clean_title t = ''Document'')
    \<and> (3 \<le> length c \<and> length c \<le> 100 \<longrightarrow> clean_title t = c)
    \<and> (100 < length c \<and> 1 < length (split (take 100 c)) \<longrightarrow>
          length (clean_title t) \<le> 100
          \<and> clean_title t
              = (if 3 \<le> length (join '' '' (butlast (split (take 100 c))))
                 then join '' '' (butlast (split (take 100 c))) else ''Document''))
    \<and> (100 < length c \<and> length (split (take 100 c)) \<le> 1 \<longrightarrow> clean_title t = c))
   \<and> extract_document_title [] stats = Inr ''Document''
   \<and> ((\<forall>e \<in> set (take 15 (filter (\<lambda>elem. page elem = 0) elems)).
          length (strip (line_text e)) < 3)
        \<longrightarrow> extract_document_title elems stats = Inr ''Document'')
   \<and> (dominant_size stats \<noteq> 0 \<longrightarrow>
        (\<exists>cands. title_candidates stats
                    (enumerate 0 (take 15 (filter (\<lambda>elem. page elem = 0) elems))) = Inr cands
           \<and> (cands = [] \<longrightarrow> extract_document_title elems stats = Inr ''Document'')
           \<and> (elems \<noteq> [] \<and> cands \<noteq> [] \<longrightarrow>
                (\<exists>best \<in> set cands. (\<forall>c \<in> set cands. fst c \<le> fst best)
                   \<and> 3 \<le> length (snd best)
                   \<and> extract_document_title elems stats = Inr (clean_title (snd best))))))"
proof -
  let ?fp = "take 15 (filter (\<lambda>elem. page elem = 0) elems)"
  have A: "let c = strip (collapse_spaces t) in
      (length c < 3 \<longrightarrow> clean_title t = ''Document'')
    \<and> (3 \<le> length c \<and> length c \<le> 100 \<longrightarrow> clean_title t = c)
    \<and> (100 < length c \<and> 1 < length (split (take 100 c)) \<longrightarrow>
          length (clean_title t) \<le> 100
          \<and> clean_title t
              = (if 3 \<le> length (join '' '' (butlast (split (take 100 c))))
                 then join '' '' (butlast (split (take 100 c))) else ''Document''))
    \<and> (100 < length c \<and> length (split (take 100 c)) \<le> 1 \<longrightarrow> clean_title t = c)"
    unfolding Let_def using clean_title_cases[of t] by blast
  have B: "extract_document_title [] stats = Inr ''Document''"
    by (simp add: extract_document_title_def)
  have empty: "extract_document_title elems stats = Inr ''Document''"
    if "title_candidates stats (enumerate 0 ?fp) = Inr []"
    using that by (simp add: extract_document_title_def Let_def)
  have C: "extract_document_title elems stats = Inr ''Document''"
    if "\<forall>e \<in> set ?fp. length (strip (line_text e)) < 3"
  proof -
    have "\<forall>(i, e) \<in> set (enumerate 0 ?fp). length (strip (line_text e)) < 3"
      using that enumerate_snd_mem by fastforce
    then have "title_candidates stats (enumerate 0 ?fp) = Inr []"
      by (rule title_candidates_none)
    then show ?thesis by (rule empty)
  qed
  have D: "\<exists>cands. title_candidates stats (enumerate 0 ?fp) = Inr cands
           \<and> (cands = [] \<longrightarrow> extract_document_title elems stats = Inr ''Document'')
           \<and> (elems \<noteq> [] \<and> cands \<noteq> [] \<longrightarrow>
                (\<exists>best \<in> set cands. (\<forall>c \<in> set cands. fst c \<le> fst best)
                   \<and> 3 \<le> length (snd best)
                   \<and> extract_document_title elems stats = Inr (clean_title (snd best))))"
    if nz: "dominant_size stats \<noteq> 0"
  proof -
    obtain cands where cands: "title_candidates stats (enumerate 0 ?fp) = Inr cands"
      using title_candidates_returns[OF nz] by blast
    have none: "extract_document_title elems stats = Inr ''Document''" if "cands = []"
      using empty cands that by simp
    have some: "\<exists>best \<in> set cands. (\<forall>c \<in> set cands. fst c \<le> fst best)
                   \<and> 3 \<le> length (snd best)
                   \<and> extract_document_title elems stats = Inr (clean_title (snd best))"
      if "elems \<noteq> []" "cands \<noteq> []"
    proof -
      have "sort_key (\<lambda>x. - fst x) cands \<noteq> []"
        using that(2) by (metis length_0_conv length_sort)
      then obtain best rest where srt: "sort_key (\<lambda>x. - fst x) cands = best # rest"
        by (cases "sort_key (\<lambda>x. - fst x) cands") auto
      have mem: "best \<in> set cands" and mx: "\<forall>c \<in> set cands. fst c \<le> fst best"
        using sort_key_head_max[OF srt] by blast+
      have len: "3 \<le> length (snd best)"
        using title_candidates_sound[OF cands] mem by blast
      have "extract_document_title elems stats = Inr (clean_title (snd best))"
        using that(1) cands srt by (simp add: extract_document_title_def Let_def)
      then show ?thesis using mem mx len by blast
    qed
    show ?thesis using cands none some by blast
  qed
  show ?thesis using A B C D by blast
qed



theorem extract_document_title_clean_witness:
  "dominant_size
      \<lparr>dominant_size = 12, all_sizes = [28, 12, 12],
            size_distribution = [(28, 1), (12, 2)],
            thresholds = \<lparr>h1 = 126 / 5, h2 = 78 / 5, h3 = 66 / 5\<rparr>\<rparr> \<noteq> 0
   \<and> extract_document_title
        [\<lparr>line_text = ''Annual   Report 2023 '', page = 0, avg_size = 28, max_size = 28,
            is_bold = True, is_italic = False, bbox = [0, 0, 0, 0]\<rparr>,
           \<lparr>line_text = ''plain body text'', page = 0, avg_size = 12, max_size = 12,
            is_bold = False, is_italic = False, bbox = [0, 0, 0, 0]\<rparr>]
        \<lparr>dominant_size = 12, all_sizes = [28, 12, 12],
            size_distribution = [(28, 1), (12, 2)],
            thresholds = \<lparr>h1 = 126 / 5, h2 = 78 / 5, h3 = 66 / 5\<rparr>\<rparr> = Inr ''Annual Report 2023''
   \<and> clean_title
        ''The quarterly financial report of the company for the fiscal year  with all of the notes and the appendix on methods''
      = ''The quarterly financial report of the company for the fiscal year with all of the notes and the''
   \<and> length (clean_title
        ''The quarterly financial report of the company for the fiscal year  with all of the notes and the appendix on methods'') \<le> 100"
proof -
  have run: "extract_document_title
        [\<lparr>line_text = ''Annual   Report 2023 '', page = 0, avg_size = 28, max_size = 28,
            is_bold = True, is_italic = False, bbox = [0, 0, 0, 0]\<rparr>,
           \<lparr>line_text = ''plain body text'', page = 0, avg_size = 12, max_size = 12,
            is_bold = False, is_italic = False, bbox = [0, 0, 0, 0]\<rparr>]
        \<lparr>dominant_size = 12, all_sizes = [28, 12, 12],
            size_distribution = [(28, 1), (12, 2)],
            thresholds = \<lparr>h1 = 126 / 5, h2 = 78 / 5, h3 = 66 / 5\<rparr>\<rparr> = Inr ''Annual Report 2023''"
    by code_simp
  have cut: "clean_title
        ''The quarterly financial report of the company for the fiscal year  with all of the notes and the appendix on methods''
      = ''The quarterly financial report of the company for the fiscal year with all of the notes and the''"
    by code_simp
  have len: "length ''The quarterly financial report of the company for the fiscal year with all of the notes and the'' \<le> 100"
    by simp
  show ?thesis
    using run cut len extract_document_title_clean
      [of "''The quarterly financial report of the company for the fiscal year  with all of the notes and the appendix on methods''"
          "\<lparr>dominant_size = 12, all_sizes = [28, 12, 12],
            size_distribution = [(28, 1), (12, 2)],
            thresholds = \<lparr>h1 = 126 / 5, h2 = 78 / 5, h3 = 66 / 5\<rparr>\<rparr>"
          "[\<lparr>line_text = ''Annual   Report 2023 '', page = 0, avg_size = 28, max_size = 28,
            is_bold = True, is_italic = False, bbox = [0, 0, 0, 0]\<rparr>,
           \<lparr>line_text = ''plain body text'', page = 0, avg_size = 12, max_size = 12,
            is_bold = False, is_italic = False, bbox = [0, 0, 0, 0]\<rparr>]"]
    by simp
qed

text \<open>
  C6 as stated fails on a title that is one word of more than 100 characters: the guard
  \<^verbatim>\<open>if len(words) > 1\<close> leaves it as it is, and the result has 101 characters.
\<close>

theorem clean_title_long_word:
  "clean_title (replicate 101 (CHR ''a'')) = replicate 101 (CHR ''a'')
   \<and> length (clean_title (replicate 101 (CHR ''a''))) = 101 \<and> (100 :: nat) < 101"
  by code_simp

end
